theory Spec2Isabelle
  imports Main "HOL-Library.AList"
begin

section \<open>Python values, exceptions and outcomes\<close>

text \<open>
  The module \<open>Scar/aws_lambda.py\<close> is dynamically typed: the values the command line hands
  to the setters can be of any type. \<open>pyval\<close> holds the Python values the module meets.
  \<open>PFunc n r\<close> is a function object with \<open>__name__ = n\<close> and repr \<open>r\<close>; \<open>PFile r c\<close> is an
  open file object with repr \<open>r\<close> whose \<open>read()\<close> returns \<open>c\<close>. Strings are over the code
  points below 256 (type \<open>char\<close>).
\<close>

datatype pyval =
    PNone
  | PBool bool
  | PInt int
  | PStr string
  | PList "pyval list"
  | PFunc string string
  | PFile string string

text \<open>Python's truth value of an object, as \<open>if v:\<close> tests it.\<close>

fun truthy :: "pyval \<Rightarrow> bool" where
  "truthy PNone = False"
| "truthy (PBool b) = b"
| "truthy (PInt i) = (i \<noteq> 0)"
| "truthy (PStr s) = (s \<noteq> [])"
| "truthy (PList xs) = (xs \<noteq> [])"
| "truthy (PFunc n r) = True"
| "truthy (PFile r c) = True"

datatype exn =
    AttributeError
  | TypeError
  | IndexError
  | KeyError
  | ValueError
  | FileNotFoundError
  | FileExistsError
  | IsADirectoryError
  | ParsingError
  | InterpolationSyntaxError
  | InterpolationMissingOptionError
  | InterpolationDepthError
  | BadZipFile
  | ClientError string

datatype exit_status = Success | Failure

text \<open>
  A call returns a value, raises an exception (which \<open>except Exception\<close> catches), or ends
  the process (\<open>SystemExit\<close>, which \<open>except Exception\<close> does not catch).
\<close>

datatype 'a outcome = Ok 'a | Raise exn | Exit exit_status

subsection \<open>\<open>str\<close>, \<open>repr\<close> and \<open>int\<close>\<close>

fun show_nat :: "nat \<Rightarrow> string" where
  "show_nat n =
     (if n < 10 then [char_of (48 + n)]
      else show_nat (n div 10) @ [char_of (48 + n mod 10)])"

definition show_int :: "int \<Rightarrow> string" where
  "show_int i = (if i < 0 then CHR ''-'' # show_nat (nat (- i)) else show_nat (nat i))"

definition hex_digit :: "nat \<Rightarrow> char" where
  "hex_digit n = (if n < 10 then char_of (48 + n) else char_of (87 + n))"

fun intercalate :: "'a list \<Rightarrow> 'a list list \<Rightarrow> 'a list" where
  "intercalate sep [] = []"
| "intercalate sep [x] = x"
| "intercalate sep (x # y # ys) = x @ sep @ intercalate sep (y # ys)"

text \<open>
  \<open>repr\<close> of a string: single quotes unless the string has a single and no double quote;
  backslash, the quote, tab, newline and carriage return are escaped, the other
  non-printable code points are written \<open>\xNN\<close>.
\<close>

definition repr_char :: "char \<Rightarrow> char \<Rightarrow> string" where
  "repr_char quote c =
     (let n = (of_char c :: nat) in
      if c = quote \<or> c = CHR 0x5C then [CHR 0x5C, c]
      else if c = CHR 0x09 then [CHR 0x5C, CHR ''t'']
      else if c = CHR 0x0A then [CHR 0x5C, CHR ''n'']
      else if c = CHR 0x0D then [CHR 0x5C, CHR ''r'']
      else if n < 32 \<or> (127 \<le> n \<and> n \<le> 160) \<or> n = 173
        then [CHR 0x5C, CHR ''x'', hex_digit (n div 16), hex_digit (n mod 16)]
      else [c])"

definition repr_str :: "string \<Rightarrow> string" where
  "repr_str s =
     (let quote = (if CHR 0x27 \<in> set s \<and> CHR 0x22 \<notin> set s then CHR 0x22 else CHR 0x27)
      in quote # concat (map (repr_char quote) s) @ [quote])"

fun py_repr :: "pyval \<Rightarrow> string" where
  "py_repr PNone = ''None''"
| "py_repr (PBool b) = (if b then ''True'' else ''False'')"
| "py_repr (PInt i) = show_int i"
| "py_repr (PStr s) = repr_str s"
| "py_repr (PList xs) = ''['' @ intercalate '', '' (map py_repr xs) @ '']''"
| "py_repr (PFunc n r) = r"
| "py_repr (PFile r c) = r"

definition py_str :: "pyval \<Rightarrow> string" where
  "py_str v = (case v of PStr s \<Rightarrow> s | _ \<Rightarrow> py_repr v)"

text \<open>
  The blanks \<open>int\<close> drops around a number: the ASCII blanks (tab to carriage return, and
  the space) and the blanks above 127 (next line, no-break space). The separators 28 to 31
  are not among them: \<open>int\<close> leaves them in place and fails on them.
\<close>

definition is_space :: "char \<Rightarrow> bool" where
  "is_space c = ((of_char c :: nat) \<in> {9, 10, 11, 12, 13, 32, 133, 160})"

definition strip :: "string \<Rightarrow> string" where
  "strip s = rev (dropWhile is_space (rev (dropWhile is_space s)))"

definition is_digit :: "char \<Rightarrow> bool" where
  "is_digit c = ((of_char CHR ''0'' :: nat) \<le> of_char c \<and> (of_char c :: nat) \<le> of_char CHR ''9'')"

fun read_nat :: "nat \<Rightarrow> string \<Rightarrow> nat" where
  "read_nat acc [] = acc"
| "read_nat acc (c # cs) = read_nat (10 * acc + (of_char c - 48)) cs"

fun no_double_underscore :: "string \<Rightarrow> bool" where
  "no_double_underscore (a # b # cs) =
     (\<not> (a = CHR ''_'' \<and> b = CHR ''_'') \<and> no_double_underscore (b # cs))"
| "no_double_underscore cs = True"

text \<open>
  \<open>int(s)\<close> on a string: blanks around are dropped, then an optional sign, then decimal
  digits, where single underscores may stand between digits. \<open>None\<close> is \<open>ValueError\<close>.
\<close>

definition py_int :: "string \<Rightarrow> int option" where
  "py_int s =
     (let t = strip s;
          neg = (t \<noteq> [] \<and> hd t = CHR ''-'');
          body = (if t \<noteq> [] \<and> (hd t = CHR ''-'' \<or> hd t = CHR ''+'') then tl t else t)
      in if body \<noteq> [] \<and> list_all (\<lambda>c. is_digit c \<or> c = CHR ''_'') body \<and>
            hd body \<noteq> CHR ''_'' \<and> last body \<noteq> CHR ''_'' \<and> no_double_underscore body
         then (let n = int (read_nat 0 (filter is_digit body)) in Some (if neg then - n else n))
         else None)"

text \<open>\<open>s.split(sep)\<close> for a separator of one character.\<close>

fun split_on :: "char \<Rightarrow> string \<Rightarrow> string list" where
  "split_on sep [] = [[]]"
| "split_on sep (c # cs) =
     (if c = sep then [] # split_on sep cs
      else (case split_on sep cs of [] \<Rightarrow> [[c]] | w # ws \<Rightarrow> (c # w) # ws))"

text \<open>The lines of a text, each with its line break, as iterating over a file yields them.\<close>

fun file_lines :: "string \<Rightarrow> string list" where
  "file_lines [] = []"
| "file_lines (c # cs) =
     (if c = CHR 0x0A then [c] # file_lines cs
      else (case file_lines cs of [] \<Rightarrow> [[c]] | w # ws \<Rightarrow> (c # w) # ws))"

text \<open>Whether \<open>json.dumps\<close> accepts the value.\<close>

fun json_serializable :: "pyval \<Rightarrow> bool" where
  "json_serializable (PList xs) = list_all json_serializable xs"
| "json_serializable (PFunc n r) = False"
| "json_serializable (PFile r c) = False"
| "json_serializable v = True"

subsection \<open>Paths\<close>

text \<open>
  \<open>os.path.join\<close> on POSIX paths: an absolute second component replaces the first,
  otherwise the components are joined with one separator unless the first already ends
  with it.
\<close>

definition path_join :: "string \<Rightarrow> string \<Rightarrow> string" where
  "path_join a b =
     (if b \<noteq> [] \<and> hd b = CHR ''/'' then b
      else if a = [] \<or> last a = CHR ''/'' then a @ b
      else a @ ''/'' @ b)"

text \<open>\<open>os.path.normpath\<close> on POSIX paths.\<close>

fun norm_comps :: "bool \<Rightarrow> string list \<Rightarrow> string list \<Rightarrow> string list" where
  "norm_comps rooted new_comps [] = new_comps"
| "norm_comps rooted new_comps (part # parts) =
     (if part = [] \<or> part = ''.'' then norm_comps rooted new_comps parts
      else if part \<noteq> ''..'' \<or> (\<not> rooted \<and> new_comps = []) \<or>
              (new_comps \<noteq> [] \<and> last new_comps = ''..'')
        then norm_comps rooted (new_comps @ [part]) parts
      else if new_comps \<noteq> [] then norm_comps rooted (butlast new_comps) parts
      else norm_comps rooted new_comps parts)"

definition normpath :: "string \<Rightarrow> string" where
  "normpath path =
     (if path = [] then ''.''
      else
        let initial_slashes =
              (if take 1 path \<noteq> ''/'' then 0
               else if take 2 path = ''//'' \<and> take 3 path \<noteq> ''///'' then 2
               else (1::nat));
            new_comps = norm_comps (initial_slashes \<noteq> 0) [] (split_on CHR ''/'' path);
            joined = replicate initial_slashes CHR ''/'' @ intercalate ''/'' new_comps
        in if joined = [] then ''.'' else joined)"

text \<open>
  The archive name \<open>zipfile\<close> gives an entry: the path normalised, leading separators
  dropped. Indexing the empty string left by a path of separators only raises.
\<close>

definition zip_arcname :: "string \<Rightarrow> string outcome" where
  "zip_arcname arcname =
     (let a = dropWhile (\<lambda>c. c = CHR ''/'') (normpath arcname)
      in if a = [] then Raise IndexError else Ok a)"

section \<open>The name validator\<close>

text \<open>
  The pattern of \<open>is_valid_name\<close> as a syntax tree. A bracket set is a list of ranges and
  single characters; \<open>Digit\<close> is \<open>\d\<close>, which on code points below 256 is \<open>0\<close> to \<open>9\<close>
  (on a Python string it is any decimal digit of Unicode; the others lie above 255).
  Repetition only occurs on sets in this pattern. Groups do not change what is matched and
  are left out.
\<close>

datatype item = Rng char char | Single char

datatype atom = Cset "item list" | Digit

datatype re =
    Lit string
  | Star atom
  | Plus atom
  | Rep nat atom
  | Seq re re
  | Alt re re
  | Opt re

fun item_match :: "item \<Rightarrow> char \<Rightarrow> bool" where
  "item_match (Rng lo hi) c = ((of_char lo :: nat) \<le> of_char c \<and> (of_char c :: nat) \<le> of_char hi)"
| "item_match (Single x) c = (c = x)"

fun atom_match :: "atom \<Rightarrow> char \<Rightarrow> bool" where
  "atom_match (Cset items) c = list_ex (\<lambda>i. item_match i c) items"
| "atom_match Digit c = ((48 :: nat) \<le> of_char c \<and> (of_char c :: nat) \<le> 57)"

text \<open>
  \<open>re\<close> is a backtracking matcher: it tries the alternatives in a fixed order (a greedy
  repetition takes as much as it can first, an optional part is tried before it is
  skipped, the left alternative before the right one) and \<open>match\<close> returns the first
  way to match a prefix of the string that it finds. \<open>bt r s\<close> lists, in that order, what
  is left of \<open>s\<close> after each way to match \<open>r\<close> at its start.
\<close>

fun star_bt :: "(char \<Rightarrow> bool) \<Rightarrow> string \<Rightarrow> string list" where
  "star_bt p [] = [[]]"
| "star_bt p (c # cs) = (if p c then star_bt p cs @ [c # cs] else [c # cs])"

fun plus_bt :: "(char \<Rightarrow> bool) \<Rightarrow> string \<Rightarrow> string list" where
  "plus_bt p [] = []"
| "plus_bt p (c # cs) = (if p c then star_bt p cs else [])"

fun rep_bt :: "(char \<Rightarrow> bool) \<Rightarrow> nat \<Rightarrow> string \<Rightarrow> string list" where
  "rep_bt p 0 s = [s]"
| "rep_bt p (Suc n) [] = []"
| "rep_bt p (Suc n) (c # cs) = (if p c then rep_bt p n cs else [])"

fun bt :: "re \<Rightarrow> string \<Rightarrow> string list" where
  "bt (Lit w) s = (if take (length w) s = w then [drop (length w) s] else [])"
| "bt (Star a) s = star_bt (atom_match a) s"
| "bt (Plus a) s = plus_bt (atom_match a) s"
| "bt (Rep n a) s = rep_bt (atom_match a) n s"
| "bt (Seq a b) s = concat (map (bt b) (bt a s))"
| "bt (Alt a b) s = bt a s @ bt b s"
| "bt (Opt a) s = bt a s @ [s]"

text \<open>\<open>pattern.match(s)\<close>: the text of the first match (\<open>group()\<close>), or \<open>None\<close>.\<close>

definition re_match :: "re \<Rightarrow> string \<Rightarrow> string option" where
  "re_match r s = (case bt r s of [] \<Rightarrow> None | t # _ \<Rightarrow> Some (take (length s - length t) s))"

text \<open>
  The pattern
  \<^verbatim>\<open>(arn:(aws[a-zA-Z-]*)?:lambda:)?([a-z]{2}(-gov)?-[a-z]+-\d{1}:)?(\d{12}:)?(function:)?([a-zA-Z0-9-_]+)(:(\$LATEST|[a-zA-Z0-9-_]+))?\<close>,
  part by part.
\<close>

definition name_set :: atom where
  "name_set = Cset [Rng CHR ''a'' CHR ''z'', Rng CHR ''A'' CHR ''Z'', Rng CHR ''0'' CHR ''9'',
                    Single CHR ''-'', Single CHR ''_'']"

definition lower_set :: atom where
  "lower_set = Cset [Rng CHR ''a'' CHR ''z'']"

definition partition_set :: atom where
  "partition_set = Cset [Rng CHR ''a'' CHR ''z'', Rng CHR ''A'' CHR ''Z'', Single CHR ''-'']"

definition arn_part :: re where
  "arn_part = Seq (Lit ''arn:'') (Seq (Opt (Seq (Lit ''aws'') (Star partition_set))) (Lit '':lambda:''))"

definition region_part :: re where
  "region_part =
     Seq (Rep 2 lower_set) (Seq (Opt (Lit ''-gov'')) (Seq (Lit ''-'') (Seq (Plus lower_set)
       (Seq (Lit ''-'') (Seq (Rep 1 Digit) (Lit '':''))))))"

definition account_part :: re where
  "account_part = Seq (Rep 12 Digit) (Lit '':'')"

definition function_part :: re where
  "function_part = Lit ''function:''"

definition name_part :: re where
  "name_part = Plus name_set"

definition qualifier_part :: re where
  "qualifier_part = Seq (Lit '':'') (Alt (Lit ''$LATEST'') (Plus name_set))"

definition tail_part :: re where
  "tail_part = Seq name_part (Opt qualifier_part)"

definition from_function :: re where
  "from_function = Seq (Opt function_part) tail_part"

definition from_account :: re where
  "from_account = Seq (Opt account_part) from_function"

definition from_region :: re where
  "from_region = Seq (Opt region_part) from_account"

definition aws_name_regex :: re where
  "aws_name_regex = Seq (Opt arn_part) from_region"

text \<open>The set of strings a pattern matches as a whole.\<close>

fun lang :: "re \<Rightarrow> string set" where
  "lang (Lit w) = {w}"
| "lang (Star a) = {w. list_all (atom_match a) w}"
| "lang (Plus a) = {w. w \<noteq> [] \<and> list_all (atom_match a) w}"
| "lang (Rep n a) = {w. length w = n \<and> list_all (atom_match a) w}"
| "lang (Seq a b) = {u @ v | u v. u \<in> lang a \<and> v \<in> lang b}"
| "lang (Alt a b) = lang a \<union> lang b"
| "lang (Opt a) = insert [] (lang a)"

text \<open>
  The naming grammar in the words of the specification: an optional \<open>arn\<close> prefix with
  its partition, an optional region of shape \<open>xx[-gov]-word-digit\<close>, an optional account
  of twelve digits, an optional \<open>function:\<close> tag, a name of letters, digits, hyphens and
  underscores, and an optional qualifier, \<open>$LATEST\<close> or a version or alias token.
\<close>

definition is_lower :: "char \<Rightarrow> bool" where
  "is_lower c = ((of_char CHR ''a'' :: nat) \<le> of_char c \<and> (of_char c :: nat) \<le> of_char CHR ''z'')"

definition is_upper :: "char \<Rightarrow> bool" where
  "is_upper c = ((of_char CHR ''A'' :: nat) \<le> of_char c \<and> (of_char c :: nat) \<le> of_char CHR ''Z'')"

definition is_name_char :: "char \<Rightarrow> bool" where
  "is_name_char c = (is_lower c \<or> is_upper c \<or> is_digit c \<or> c = CHR ''-'' \<or> c = CHR ''_'')"

definition name_token :: "string \<Rightarrow> bool" where
  "name_token w = (w \<noteq> [] \<and> list_all is_name_char w)"

definition arn_prefix :: "string \<Rightarrow> bool" where
  "arn_prefix w =
     (\<exists>p. w = ''arn:'' @ p @ '':lambda:'' \<and>
        (p = [] \<or> (\<exists>x. p = ''aws'' @ x \<and>
           list_all (\<lambda>c. is_lower c \<or> is_upper c \<or> c = CHR ''-'') x)))"

definition region_segment :: "string \<Rightarrow> bool" where
  "region_segment w =
     (\<exists>a b g word d. w = [a, b] @ g @ ''-'' @ word @ ''-'' @ [d] @ '':'' \<and>
        is_lower a \<and> is_lower b \<and> (g = [] \<or> g = ''-gov'') \<and>
        word \<noteq> [] \<and> list_all is_lower word \<and> is_digit d)"

definition account_segment :: "string \<Rightarrow> bool" where
  "account_segment w = (\<exists>ds. w = ds @ '':'' \<and> length ds = 12 \<and> list_all is_digit ds)"

definition qualifier :: "string \<Rightarrow> bool" where
  "qualifier w = (w = '':$LATEST'' \<or> (\<exists>q. w = '':'' @ q \<and> name_token q))"

definition naming_grammar :: "string \<Rightarrow> bool" where
  "naming_grammar s =
     (\<exists>p r a f n q. s = p @ r @ a @ f @ n @ q \<and>
        (p = [] \<or> arn_prefix p) \<and>
        (r = [] \<or> region_segment r) \<and>
        (a = [] \<or> account_segment a) \<and>
        (f = [] \<or> f = ''function:'') \<and>
        name_token n \<and>
        (q = [] \<or> qualifier q))"

text \<open>
  \<open>is_valid_name\<close>. A value that is not true is rejected before the pattern is used;
  \<open>pattern.match\<close> raises \<open>TypeError\<close> on what is not a string; with no match at all the
  \<open>and\<close> returns \<open>None\<close>, which callers read as false.
\<close>

definition is_valid_name :: "pyval \<Rightarrow> pyval outcome" where
  "is_valid_name function_name =
     (if truthy function_name then
        (case function_name of
           PStr s \<Rightarrow>
             (case re_match aws_name_regex s of
                None \<Rightarrow> Ok PNone
              | Some matched \<Rightarrow> Ok (PBool (matched = s)))
         | _ \<Rightarrow> Raise TypeError)
      else Ok (PBool False))"

section \<open>The function descriptor\<close>

datatype OutputType = VERBOSE | JSON | TABLE | PLAIN_TEXT

text \<open>
  The payload field holds the text \<open>json.dumps\<close> produced; the serialisation is kept
  symbolic: \<open>JsonDumps v\<close> is \<open>json.dumps(v)\<close> and \<open>JsonDumpsDict k v\<close> is
  \<open>json.dumps({k: v})\<close>.
\<close>

datatype payload_text = JsonText string | JsonDumps pyval | JsonDumpsDict string pyval

text \<open>
  File contents by kind: a zip archive as the list of its entries (archive name and content,
  in the order written), an archive appended to a file that is not one (the file as it was,
  then the entries), or other bytes, as text.
\<close>

datatype fcontent =
    Raw string
  | Zip "(string \<times> fcontent) list"
  | Zip_after fcontent "(string \<times> fcontent) list"

text \<open>
  What \<open>configparser\<close> holds after reading: the sections in the order read, each with its
  options (names in lower case) and their values as written, before interpolation.
\<close>

type_synonym sections = "(string \<times> (string \<times> string) list) list"

text \<open>A directory: its files with their contents, and its subdirectories.\<close>

datatype dirtree = Dir "(string \<times> fcontent) list" "(string \<times> dirtree) list"

text \<open>
  The fields of \<open>AWSLambda\<close>. \<open>output_type\<close> is the field \<open>output\<close>; \<open>event_bucket_name\<close>
  and \<open>event_object_key\<close> are the two leaves of the \<open>event\<close> template that the setters
  write; \<open>environment\<close> is the dictionary under \<open>'Variables'\<close>. \<open>lambda_role\<close> and
  \<open>preheat\<close> do not exist on a fresh object: \<open>None\<close> is the absence of the attribute.
  The client object is passed to the methods that call it instead of being stored.
\<close>

record AWSLambda =
  asynchronous_call :: bool
  code :: "fcontent option"
  container_arguments :: pyval
  delete_all :: pyval
  description :: string
  environment :: "(string \<times> pyval) list"
  event_bucket_name :: pyval
  event_object_key :: pyval
  event_source :: pyval
  extra_payload :: pyval
  function_arn :: pyval
  handler :: pyval
  image_id :: pyval
  invocation_type :: string
  log_group_name :: pyval
  log_retention_policy_in_days :: int
  log_stream_name :: pyval
  log_type :: string
  memory :: pyval
  name :: pyval
  output_type :: OutputType
  payload :: payload_text
  recursive :: pyval
  region :: string
  request_id :: pyval
  role :: pyval
  runtime :: string
  scar_call :: pyval
  script :: pyval
  tags :: "(string \<times> pyval) list"
  time :: pyval
  timeout_threshold :: pyval
  udocker_dir :: string
  udocker_tarball :: string
  zip_file_path :: string
  lambda_role :: "pyval option"
  preheat :: "pyval option"

text \<open>\<open>__init__\<close>; \<open>tmpdir\<close> is \<open>tempfile.gettempdir()\<close>.\<close>

definition AWSLambda_init :: "string \<Rightarrow> AWSLambda" where
  "AWSLambda_init tmpdir =
     \<lparr> asynchronous_call = False,
       code = None,
       container_arguments = PNone,
       delete_all = PBool False,
       description = ''Automatically generated lambda function'',
       environment = [],
       event_bucket_name = PStr '''',
       event_object_key = PStr '''',
       event_source = PNone,
       extra_payload = PNone,
       function_arn = PNone,
       handler = PNone,
       image_id = PNone,
       invocation_type = ''RequestResponse'',
       log_group_name = PNone,
       log_retention_policy_in_days = 30,
       log_stream_name = PNone,
       log_type = ''Tail'',
       memory = PInt 512,
       name = PNone,
       output_type = PLAIN_TEXT,
       payload = JsonText ''{}'',
       recursive = PBool False,
       region = ''us-east-1'',
       request_id = PNone,
       role = PNone,
       runtime = ''python3.6'',
       scar_call = PNone,
       script = PNone,
       tags = [],
       time = PInt 300,
       timeout_threshold = PInt 10,
       udocker_dir = ''/tmp/home/.udocker'',
       udocker_tarball = ''/var/task/udocker-1.1.0-RC2.tar.gz'',
       zip_file_path = path_join tmpdir ''function.zip'',
       lambda_role = None,
       preheat = None \<rparr>"

subsection \<open>The world a call runs in\<close>

datatype log_record = Log_error string | Log_error_exn exn | Log_warning string

text \<open>
  What the module reads and changes: the descriptor, the records handed to \<open>logging\<close>,
  the lines printed, the regular files by path, the directories made, and the directory
  trees \<open>os.walk\<close> finds by path.
\<close>

record world =
  self :: AWSLambda
  log_records :: "log_record list"
  printed :: "string list"
  files :: "string \<Rightarrow> fcontent option"
  dirs :: "string list"
  trees :: "string \<Rightarrow> dirtree option"

type_synonym 'a comp = "world \<Rightarrow> 'a outcome \<times> world"

definition ret :: "'a \<Rightarrow> 'a comp" where
  "ret x w = (Ok x, w)"

definition raise :: "exn \<Rightarrow> 'a comp" where
  "raise e w = (Raise e, w)"

definition lift :: "'a outcome \<Rightarrow> 'a comp" where
  "lift r w = (r, w)"

text \<open>Sequencing: an exception or an exit of the first part skips the second.\<close>

definition and_then :: "'a comp \<Rightarrow> ('a \<Rightarrow> 'b comp) \<Rightarrow> 'b comp" where
  "and_then m f w =
     (case m w of
        (Ok x, w') \<Rightarrow> f x w'
      | (Raise e, w') \<Rightarrow> (Raise e, w')
      | (Exit st, w') \<Rightarrow> (Exit st, w'))"

definition update_self :: "(AWSLambda \<Rightarrow> AWSLambda) \<Rightarrow> unit comp" where
  "update_self f w = (Ok (), w\<lparr>self := f (self w)\<rparr>)"

text \<open>A step that reads the world it starts in.\<close>

definition with_world :: "(world \<Rightarrow> 'a comp) \<Rightarrow> 'a comp" where
  "with_world f w = f w w"

definition when_then :: "bool \<Rightarrow> unit comp \<Rightarrow> unit comp" where
  "when_then b m = (if b then m else ret ())"

text \<open>A step keeps a field of the descriptor when it leaves it as it was, however it ends.\<close>

definition keeps :: "(AWSLambda \<Rightarrow> 'a) \<Rightarrow> 'b comp \<Rightarrow> bool" where
  "keeps field m = (\<forall>w. field (self (snd (m w))) = field (self w))"

definition logging_error :: "string \<Rightarrow> unit comp" where
  "logging_error msg w = (Ok (), w\<lparr>log_records := log_records w @ [Log_error msg]\<rparr>)"

definition logging_error_exn :: "exn \<Rightarrow> unit comp" where
  "logging_error_exn ex w = (Ok (), w\<lparr>log_records := log_records w @ [Log_error_exn ex]\<rparr>)"

definition logging_warning :: "string \<Rightarrow> unit comp" where
  "logging_warning msg w = (Ok (), w\<lparr>log_records := log_records w @ [Log_warning msg]\<rparr>)"

definition print :: "string \<Rightarrow> unit comp" where
  "print line w = (Ok (), w\<lparr>printed := printed w @ [line]\<rparr>)"

subsection \<open>What the module takes from outside\<close>

text \<open>
  The provider client, an external collaborator: each method returns, raises or ends the
  process, and does not touch the descriptor.
\<close>

record aws_client =
  create_function_name :: "pyval \<Rightarrow> pyval outcome"
  check_memory :: "pyval \<Rightarrow> pyval outcome"
  check_time :: "pyval \<Rightarrow> pyval outcome"
  get_user_name_or_id :: "pyval outcome"
  check_function_name_exists :: "pyval \<Rightarrow> unit outcome"
  check_function_name_not_exists :: "pyval \<Rightarrow> unit outcome"
  update_function_memory :: "pyval \<Rightarrow> pyval \<Rightarrow> unit outcome"
  update_function_timeout :: "pyval \<Rightarrow> pyval \<Rightarrow> unit outcome"
  update_function_env_variables :: "pyval \<Rightarrow> (string \<times> pyval) list \<Rightarrow> unit outcome"

text \<open>
  The host: the user's home directory (\<open>os.path.expanduser("~")\<close>), the directory of the
  installation (\<open>get_scar_abs_path()\<close>), the two escaping functions of \<open>scar_utils\<close>, and
  the reader of \<open>configparser\<close>: what \<open>read\<close> makes of the content of a file that is there,
  the sections it holds afterwards or the exception it raises.
\<close>

record host =
  home :: string
  scar_abs_path :: string
  escape_string :: "string \<Rightarrow> pyval outcome"
  escape_list :: "pyval \<Rightarrow> pyval outcome"
  parse_config :: "fcontent \<Rightarrow> sections outcome"

definition config_file_folder :: "host \<Rightarrow> string" where
  "config_file_folder h = home h @ ''/.scar''"

definition config_file_name :: string where
  "config_file_name = ''scar.cfg''"

definition config_file_path :: "host \<Rightarrow> string" where
  "config_file_path h = config_file_folder h @ ''/'' @ config_file_name"

text \<open>
  Modelled from the spec: \<open>scar_utils.finish_failed_execution\<close>, which is not part of the
  module. The specification has validation failures end the run at once through an
  explicit finish-with-failure call, with a failure exit status.
\<close>

definition finish_failed_execution :: "'a comp" where
  "finish_failed_execution w = (Exit Failure, w)"

text \<open>
  Modelled from the spec: \<open>scar_utils.finish_successful_execution\<close>, which is not part of
  the module. The specification has the first-run bootstrap end the run with success
  (exit code 0).
\<close>

definition finish_successful_execution :: "'a comp" where
  "finish_successful_execution w = (Exit Success, w)"

subsection \<open>Setters\<close>

definition set_log_stream_name :: "pyval \<Rightarrow> AWSLambda \<Rightarrow> AWSLambda" where
  "set_log_stream_name stream_name d = d\<lparr>log_stream_name := stream_name\<rparr>"

definition set_request_id :: "pyval \<Rightarrow> AWSLambda \<Rightarrow> AWSLambda" where
  "set_request_id request_id_arg d = d\<lparr>request_id := request_id_arg\<rparr>"

definition is_asynchronous :: "AWSLambda \<Rightarrow> bool" where
  "is_asynchronous d = asynchronous_call d"

definition has_event_source :: "AWSLambda \<Rightarrow> bool" where
  "has_event_source d = (event_source d \<noteq> PNone)"

definition set_payload :: "pyval \<Rightarrow> unit comp" where
  "set_payload payload_arg =
     (if json_serializable payload_arg
      then update_self (\<lambda>d. d\<lparr>payload := JsonDumps payload_arg\<rparr>)
      else raise TypeError)"

text \<open>\<open>set_payload\<close> on the one-entry dictionary \<open>create_payload\<close> builds.\<close>

definition set_payload_dict :: "string \<times> pyval \<Rightarrow> unit comp" where
  "set_payload_dict kv =
     (if json_serializable (snd kv)
      then update_self (\<lambda>d. d\<lparr>payload := JsonDumpsDict (fst kv) (snd kv)\<rparr>)
      else raise TypeError)"

definition set_cont_args :: "pyval \<Rightarrow> AWSLambda \<Rightarrow> AWSLambda" where
  "set_cont_args container_arguments_arg d = d\<lparr>container_arguments := container_arguments_arg\<rparr>"

definition set_asynchronous_call_parameters :: "AWSLambda \<Rightarrow> AWSLambda" where
  "set_asynchronous_call_parameters d =
     d\<lparr>asynchronous_call := True, invocation_type := ''Event'', log_type := ''None''\<rparr>"

definition set_request_response_call_parameters :: "AWSLambda \<Rightarrow> AWSLambda" where
  "set_request_response_call_parameters d =
     d\<lparr>asynchronous_call := False, invocation_type := ''RequestResponse'',
       log_type := ''Tail''\<rparr>"

definition set_async :: "pyval \<Rightarrow> AWSLambda \<Rightarrow> AWSLambda" where
  "set_async asynchronous_call_arg d =
     (if truthy asynchronous_call_arg then set_asynchronous_call_parameters d
      else set_request_response_call_parameters d)"

text \<open>Only a function object has \<open>__name__\<close> among the values of \<open>pyval\<close>.\<close>

definition set_func :: "pyval \<Rightarrow> unit comp" where
  "set_func scar_call_arg =
     (case scar_call_arg of
        PFunc n r \<Rightarrow> update_self (\<lambda>d. d\<lparr>scar_call := PStr n\<rparr>)
      | _ \<Rightarrow> raise AttributeError)"

definition invalid_name_message :: "pyval \<Rightarrow> string" where
  "invalid_name_message name_arg =
     [CHR 0x27] @ py_str name_arg @ [CHR 0x27] @ '' is an invalid lambda function name.''"

definition set_name :: "pyval \<Rightarrow> unit comp" where
  "set_name name_arg =
     and_then (lift (is_valid_name name_arg)) (\<lambda>valid.
     and_then
       (if \<not> truthy valid then
          and_then (print (invalid_name_message name_arg)) (\<lambda>_.
          and_then (logging_error (invalid_name_message name_arg)) (\<lambda>_.
          finish_failed_execution))
        else ret ())
       (\<lambda>_. update_self (\<lambda>d. d\<lparr>name := name_arg\<rparr>)))"

text \<open>
  \<open>hasattr(self, 'name')\<close>: \<open>__init__\<close> assigns the attribute and nothing deletes it, so it
  holds on every descriptor.
\<close>

definition hasattr_name :: "AWSLambda \<Rightarrow> bool" where
  "hasattr_name d = True"

definition set_image_id :: "aws_client \<Rightarrow> pyval \<Rightarrow> unit comp" where
  "set_image_id client image_id_arg =
     and_then (update_self (\<lambda>d. d\<lparr>image_id := image_id_arg\<rparr>)) (\<lambda>_.
     with_world (\<lambda>w.
       when_then (\<not> hasattr_name (self w) \<or> name (self w) = PStr '''')
         (and_then (lift (create_function_name client image_id_arg)) set_name)))"

definition set_memory :: "aws_client \<Rightarrow> pyval \<Rightarrow> unit comp" where
  "set_memory client memory_arg =
     and_then (lift (check_memory client memory_arg)) (\<lambda>m.
     update_self (\<lambda>d. d\<lparr>memory := m\<rparr>))"

definition set_time :: "aws_client \<Rightarrow> pyval \<Rightarrow> unit comp" where
  "set_time client time_arg =
     and_then (lift (check_time client time_arg)) (\<lambda>t.
     update_self (\<lambda>d. d\<lparr>time := t\<rparr>))"

definition set_timeout_threshold :: "pyval \<Rightarrow> AWSLambda \<Rightarrow> AWSLambda" where
  "set_timeout_threshold timeout_threshold_arg d = d\<lparr>timeout_threshold := timeout_threshold_arg\<rparr>"

definition set_json :: "pyval \<Rightarrow> AWSLambda \<Rightarrow> AWSLambda" where
  "set_json json d = (if truthy json then d\<lparr>output_type := JSON\<rparr> else d)"

definition set_verbose :: "pyval \<Rightarrow> AWSLambda \<Rightarrow> AWSLambda" where
  "set_verbose verbose d = (if truthy verbose then d\<lparr>output_type := VERBOSE\<rparr> else d)"

definition set_script :: "pyval \<Rightarrow> AWSLambda \<Rightarrow> AWSLambda" where
  "set_script script_arg d = d\<lparr>script := script_arg\<rparr>"

definition set_event_source :: "pyval \<Rightarrow> AWSLambda \<Rightarrow> AWSLambda" where
  "set_event_source event_source_arg d =
     d\<lparr>event_source := event_source_arg, event_bucket_name := event_source_arg\<rparr>"

definition set_event_source_file_name :: "pyval \<Rightarrow> AWSLambda \<Rightarrow> AWSLambda" where
  "set_event_source_file_name file_name d = d\<lparr>event_object_key := file_name\<rparr>"

definition set_lambda_role :: "pyval \<Rightarrow> AWSLambda \<Rightarrow> AWSLambda" where
  "set_lambda_role lambda_role_arg d = d\<lparr>lambda_role := Some lambda_role_arg\<rparr>"

definition set_recursive :: "pyval \<Rightarrow> AWSLambda \<Rightarrow> AWSLambda" where
  "set_recursive recursive_arg d = d\<lparr>recursive := recursive_arg\<rparr>"

definition set_preheat :: "pyval \<Rightarrow> AWSLambda \<Rightarrow> AWSLambda" where
  "set_preheat preheat_arg d = d\<lparr>preheat := Some preheat_arg\<rparr>"

definition set_extra_payload :: "pyval \<Rightarrow> AWSLambda \<Rightarrow> AWSLambda" where
  "set_extra_payload extra_payload_arg d = d\<lparr>extra_payload := extra_payload_arg\<rparr>"

text \<open>
  Assignment to a key of a dictionary: the value of a key already there is replaced in
  place, a new key goes to the end.
\<close>

definition set_evironment_variable :: "string \<Rightarrow> pyval \<Rightarrow> AWSLambda \<Rightarrow> AWSLambda" where
  "set_evironment_variable key val d = d\<lparr>environment := AList.update key val (environment d)\<rparr>"

definition set_required_environment_variables :: "AWSLambda \<Rightarrow> AWSLambda" where
  "set_required_environment_variables d =
     (let d1 = set_evironment_variable ''UDOCKER_DIR'' (PStr (udocker_dir d)) d;
          d2 = set_evironment_variable ''UDOCKER_TARBALL'' (PStr (udocker_tarball d1)) d1;
          d3 = set_evironment_variable ''TIMEOUT_THRESHOLD''
                 (PStr (py_str (timeout_threshold d2))) d2;
          d4 = set_evironment_variable ''RECURSIVE'' (PStr (py_str (recursive d3))) d3
      in set_evironment_variable ''IMAGE_ID'' (image_id d4) d4)"

text \<open>
  What a \<open>for\<close> loop over the value iterates: the items of a list, the characters of a
  string, the lines of a file; the other values are not iterable.
\<close>

definition py_iter :: "pyval \<Rightarrow> pyval list outcome" where
  "py_iter v =
     (case v of
        PList xs \<Rightarrow> Ok xs
      | PStr s \<Rightarrow> Ok (map (\<lambda>c. PStr [c]) s)
      | PFile r c \<Rightarrow> Ok (map PStr (file_lines c))
      | _ \<Rightarrow> Raise TypeError)"

text \<open>The body of the loop of \<open>set_environment_variables\<close>; only a string has \<open>split\<close>.\<close>

definition bind_env_var :: "pyval \<Rightarrow> unit comp" where
  "bind_env_var env_var =
     (case env_var of
        PStr s \<Rightarrow>
          (case split_on CHR ''='' s of
             k # v # rest \<Rightarrow> update_self (set_evironment_variable (''CONT_VAR_'' @ k) (PStr v))
           | _ \<Rightarrow> raise IndexError)
      | _ \<Rightarrow> raise AttributeError)"

fun env_loop :: "pyval list \<Rightarrow> unit comp" where
  "env_loop [] = ret ()"
| "env_loop (env_var # rest) = and_then (bind_env_var env_var) (\<lambda>_. env_loop rest)"

definition set_environment_variables :: "pyval \<Rightarrow> unit comp" where
  "set_environment_variables variables = and_then (lift (py_iter variables)) env_loop"

definition set_tags :: "aws_client \<Rightarrow> unit comp" where
  "set_tags client =
     and_then (update_self (\<lambda>d. d\<lparr>tags := AList.update ''createdby'' (PStr ''scar'') (tags d)\<rparr>))
       (\<lambda>_.
     and_then (lift (get_user_name_or_id client)) (\<lambda>owner.
     update_self (\<lambda>d. d\<lparr>tags := AList.update ''owner'' owner (tags d)\<rparr>)))"

definition set_all :: "pyval \<Rightarrow> AWSLambda \<Rightarrow> AWSLambda" where
  "set_all val d = d\<lparr>delete_all := val\<rparr>"

definition role_missing_message :: "host \<Rightarrow> string" where
  "role_missing_message h =
     ''Please, specify first a lambda role in the '' @ [CHR 0x27] @ config_file_folder h @
     ''/'' @ config_file_name @ [CHR 0x27] @ '' file.''"

definition validate_lambda_configuration :: "host \<Rightarrow> unit comp" where
  "validate_lambda_configuration h =
     with_world (\<lambda>w.
       when_then (\<not> truthy (role (self w)) \<or> role (self w) = PStr '''')
         (and_then (logging_error (role_missing_message h)) (\<lambda>_. finish_failed_execution)))"

text \<open>
  The parsed arguments are the attribute dictionary of the namespace: names and values in
  the order of the dictionary.
\<close>

definition get_argument_value :: "(string \<times> pyval) list \<Rightarrow> string \<Rightarrow> pyval" where
  "get_argument_value args attr = (case map_of args attr of Some v \<Rightarrow> v | None \<Rightarrow> PNone)"

definition update_function_attributes :: "aws_client \<Rightarrow> (string \<times> pyval) list \<Rightarrow> unit comp" where
  "update_function_attributes client args =
     and_then (with_world (\<lambda>w. when_then (truthy (get_argument_value args ''memory''))
                 (lift (update_function_memory client (name (self w)) (memory (self w)))))) (\<lambda>_.
     and_then (with_world (\<lambda>w. when_then (truthy (get_argument_value args ''time''))
                 (lift (update_function_timeout client (name (self w)) (time (self w)))))) (\<lambda>_.
     with_world (\<lambda>w. when_then (truthy (get_argument_value args ''env''))
                 (lift (update_function_env_variables client (name (self w))
                    (environment (self w)))))))"

definition check_function_name :: "aws_client \<Rightarrow> unit comp" where
  "check_function_name client =
     with_world (\<lambda>w.
       if truthy (name (self w)) then
         (if scar_call (self w) = PStr ''init''
          then lift (check_function_name_exists client (name (self w)))
          else if scar_call (self w) = PStr ''rm'' \<or> scar_call (self w) = PStr ''run''
          then lift (check_function_name_not_exists client (name (self w)))
          else ret ())
       else ret ())"

subsection \<open>The archive builder\<close>

text \<open>\<open>a + b\<close> where one side is a string literal: the other side has to be a string.\<close>

definition str_of_operand :: "pyval \<Rightarrow> string outcome" where
  "str_of_operand v = (case v of PStr s \<Rightarrow> Ok s | _ \<Rightarrow> Raise TypeError)"

text \<open>\<open>shutil.copy(src, dst)\<close> to a file path.\<close>

definition shutil_copy :: "string \<Rightarrow> string \<Rightarrow> unit comp" where
  "shutil_copy src dst w =
     (case files w src of
        None \<Rightarrow> (Raise FileNotFoundError, w)
      | Some c \<Rightarrow> (Ok (), w\<lparr>files := (files w)(dst \<mapsto> c)\<rparr>))"

definition os_remove :: "string \<Rightarrow> unit comp" where
  "os_remove path w =
     (case files w path of
        None \<Rightarrow> (Raise FileNotFoundError, w)
      | Some c \<Rightarrow> (Ok (), w\<lparr>files := (files w)(path := None)\<rparr>))"

text \<open>\<open>zipfile.ZipFile(path, 'w')\<close>: a new, empty archive in place of what was there.\<close>

definition zip_open_w :: "string \<Rightarrow> unit comp" where
  "zip_open_w zip_path w = (Ok (), w\<lparr>files := (files w)(zip_path \<mapsto> Zip [])\<rparr>)"

text \<open>
  \<open>zipfile.ZipFile(path, 'a')\<close>: the archive that is there is kept and added to; a new one
  is made when there is no file, and appended to the file when the file is not an archive.
\<close>

definition zip_open_a :: "string \<Rightarrow> unit comp" where
  "zip_open_a zip_path w =
     (case files w zip_path of
        None \<Rightarrow> (Ok (), w\<lparr>files := (files w)(zip_path \<mapsto> Zip [])\<rparr>)
      | Some (Zip es) \<Rightarrow> (Ok (), w)
      | Some (Zip_after c es) \<Rightarrow> (Ok (), w)
      | Some (Raw t) \<Rightarrow> (Ok (), w\<lparr>files := (files w)(zip_path \<mapsto> Zip_after (Raw t) [])\<rparr>))"

text \<open>
  Adding one entry with the given content to the open archive. Both callers have opened
  the archive just before, so the file is one.
\<close>

definition zip_add :: "string \<Rightarrow> fcontent \<Rightarrow> string \<Rightarrow> unit comp" where
  "zip_add zip_path content arcname w =
     (case zip_arcname arcname of
        Ok a \<Rightarrow>
          (case files w zip_path of
             Some (Zip es) \<Rightarrow> (Ok (), w\<lparr>files := (files w)(zip_path \<mapsto> Zip (es @ [(a, content)]))\<rparr>)
           | Some (Zip_after c es) \<Rightarrow>
               (Ok (), w\<lparr>files := (files w)(zip_path \<mapsto> Zip_after c (es @ [(a, content)]))\<rparr>)
           | _ \<Rightarrow> (Raise BadZipFile, w))
      | Raise e \<Rightarrow> (Raise e, w)
      | Exit st \<Rightarrow> (Exit st, w))"

text \<open>\<open>zf.write(filename, arcname)\<close>: the file is looked up first, then the entry is named.\<close>

definition zf_write :: "string \<Rightarrow> string \<Rightarrow> string \<Rightarrow> unit comp" where
  "zf_write zip_path filename arcname w =
     (case files w filename of
        None \<Rightarrow> (Raise FileNotFoundError, w)
      | Some c \<Rightarrow> zip_add zip_path c arcname w)"

text \<open>
  \<open>os.walk(target_dir)\<close>: the directory itself first, then each subdirectory in turn, each with
  the path it is reached by and its files.
\<close>

fun walk_tree :: "string \<Rightarrow> dirtree \<Rightarrow> (string \<times> (string \<times> fcontent) list) list"
  and walk_subdirs :: "string \<Rightarrow> (string \<times> dirtree) list \<Rightarrow> (string \<times> (string \<times> fcontent) list) list"
  where
  "walk_tree base (Dir fs ds) = (base, fs) # walk_subdirs base ds"
| "walk_subdirs base [] = []"
| "walk_subdirs base (sub # ds) =
     walk_tree (path_join base (fst sub)) (snd sub) @ walk_subdirs base ds"

definition os_walk :: "world \<Rightarrow> string \<Rightarrow> (string \<times> (string \<times> fcontent) list) list" where
  "os_walk w target = (case trees w target of None \<Rightarrow> [] | Some t \<Rightarrow> walk_tree target t)"

text \<open>The inner loop of \<open>zip_folder\<close>, over the files of one directory.\<close>

fun zip_files_loop :: "string \<Rightarrow> nat \<Rightarrow> string \<Rightarrow> (string \<times> fcontent) list \<Rightarrow> unit comp" where
  "zip_files_loop zip_path rootlen base [] = ret ()"
| "zip_files_loop zip_path rootlen base (file # rest) =
     (let fn = path_join base (fst file) in
      and_then (zip_add zip_path (snd file) (''extra/'' @ drop rootlen fn)) (\<lambda>_.
      zip_files_loop zip_path rootlen base rest))"

text \<open>The outer loop of \<open>zip_folder\<close>, over the directories \<open>os.walk\<close> yields.\<close>

fun zip_walk_loop :: "string \<Rightarrow> nat \<Rightarrow> (string \<times> (string \<times> fcontent) list) list \<Rightarrow> unit comp" where
  "zip_walk_loop zip_path rootlen [] = ret ()"
| "zip_walk_loop zip_path rootlen (entry # rest) =
     and_then (zip_files_loop zip_path rootlen (fst entry) (snd entry)) (\<lambda>_.
     zip_walk_loop zip_path rootlen rest)"

text \<open>\<open>len\<close> and \<open>os.walk\<close> together accept a string only.\<close>

definition zip_folder :: "string \<Rightarrow> pyval \<Rightarrow> unit comp" where
  "zip_folder zipPath target_dir =
     and_then (zip_open_a zipPath) (\<lambda>_.
       (case target_dir of
          PStr t \<Rightarrow> with_world (\<lambda>w. zip_walk_loop zipPath (length t + 1) (os_walk w t))
        | _ \<Rightarrow> raise TypeError))"

text \<open>\<open>zf.write(self.script, 'init_script.sh')\<close> takes a path.\<close>

definition write_init_script :: "string \<Rightarrow> pyval \<Rightarrow> unit comp" where
  "write_init_script zip_path script_arg =
     (case script_arg of
        PStr p \<Rightarrow> zf_write zip_path p ''init_script.sh''
      | _ \<Rightarrow> raise TypeError)"

definition read_file :: "string \<Rightarrow> fcontent comp" where
  "read_file path w =
     (case files w path of None \<Rightarrow> (Raise FileNotFoundError, w) | Some c \<Rightarrow> (Ok c, w))"

definition create_zip_file :: "host \<Rightarrow> fcontent comp" where
  "create_zip_file h =
     with_world (\<lambda>w0.
       (let scar_dir = scar_abs_path h; zip_path = zip_file_path (self w0) in
        and_then (lift (str_of_operand (name (self w0)))) (\<lambda>nm.
        (let function_name = nm @ ''.py'' in
         and_then (shutil_copy (scar_dir @ ''/lambda/scarsupervisor.py'') function_name) (\<lambda>_.
         and_then (zip_open_w zip_path) (\<lambda>_.
         and_then (zf_write zip_path function_name function_name) (\<lambda>_.
         and_then (os_remove function_name) (\<lambda>_.
         and_then (zf_write zip_path (scar_dir @ ''/lambda/udocker'') ''udocker'') (\<lambda>_.
         and_then (zf_write zip_path (scar_dir @ ''/lambda/udocker-1.1.0-RC2.tar.gz'')
                     ''udocker-1.1.0-RC2.tar.gz'') (\<lambda>_.
         and_then (with_world (\<lambda>w. when_then (truthy (script (self w)))
                     (and_then (write_init_script zip_path (script (self w))) (\<lambda>_.
                      update_self (set_evironment_variable ''INIT_SCRIPT_PATH''
                        (PStr ''/var/task/init_script.sh'')))))) (\<lambda>_.
         and_then (with_world (\<lambda>w. when_then (truthy (extra_payload (self w)))
                     (and_then (zip_folder zip_path (extra_payload (self w))) (\<lambda>_.
                      update_self (set_evironment_variable ''EXTRA_PAYLOAD''
                        (PStr ''/var/task/extra/'')))))) (\<lambda>_.
         read_file zip_path))))))))))))"

definition set_code :: "host \<Rightarrow> unit comp" where
  "set_code h =
     and_then (create_zip_file h) (\<lambda>zip_bytes. update_self (\<lambda>d. d\<lparr>code := Some zip_bytes\<rparr>))"

subsection \<open>The config file store\<close>

definition get_default_json_config :: "AWSLambda \<Rightarrow> (string \<times> pyval) list" where
  "get_default_json_config d =
     [(''lambda_description'', PStr (description d)),
      (''lambda_memory'', memory d),
      (''lambda_time'', time d),
      (''lambda_region'', PStr (region d)),
      (''lambda_role'', PStr ''''),
      (''lambda_timeout_threshold'', timeout_threshold d)]"

text \<open>
  The check \<open>configparser\<close> makes of a value it is given: with every \<open>%%\<close> taken out, and
  then every reference \<open>%(name)s\<close>, no \<open>%\<close> may be left. \<open>reference_length s\<close> is the length
  of what follows the \<open>%\<close> in a reference that \<open>s\<close> starts with, if it starts with one.
\<close>

fun drop_escaped_percent :: "string \<Rightarrow> string" where
  "drop_escaped_percent (a # b # cs) =
     (if a = CHR ''%'' \<and> b = CHR ''%'' then drop_escaped_percent cs
      else a # drop_escaped_percent (b # cs))"
| "drop_escaped_percent cs = cs"

fun reference_name_length :: "string \<Rightarrow> nat option" where
  "reference_name_length [] = None"
| "reference_name_length (c # cs) =
     (if c = CHR '')'' then
        (case cs of [] \<Rightarrow> None | d # ds \<Rightarrow> if d = CHR ''s'' then Some 0 else None)
      else map_option Suc (reference_name_length cs))"

definition reference_length :: "string \<Rightarrow> nat option" where
  "reference_length s =
     (case s of
        [] \<Rightarrow> None
      | c # cs \<Rightarrow>
          if c = CHR ''('' then
            (case reference_name_length cs of
               None \<Rightarrow> None
             | Some n \<Rightarrow> if n = 0 then None else Some (n + 3))
          else None)"

fun stray_percent :: "nat \<Rightarrow> string \<Rightarrow> bool" where
  "stray_percent skip [] = False"
| "stray_percent (Suc skip) (c # cs) = stray_percent skip cs"
| "stray_percent 0 (c # cs) =
     (if c = CHR ''%'' then
        (case reference_length cs of None \<Rightarrow> True | Some n \<Rightarrow> stray_percent n cs)
      else stray_percent 0 cs)"

definition invalid_interpolation_syntax :: "string \<Rightarrow> bool" where
  "invalid_interpolation_syntax v = stray_percent 0 (drop_escaped_percent v)"

text \<open>
  \<open>config_parser['scar'] = d\<close>: the options are stored one after the other, each value as
  its \<open>str\<close>. \<open>None\<close> is refused (\<open>TypeError\<close>), and so is a value that is not empty and
  fails the check above (\<open>ValueError\<close>). The keys are taken as they are: they are in lower
  case already.
\<close>

fun store_options :: "(string \<times> pyval) list \<Rightarrow> (string \<times> string) list outcome" where
  "store_options [] = Ok []"
| "store_options (kv # rest) =
     (if snd kv = PNone then Raise TypeError
      else if py_str (snd kv) \<noteq> [] \<and> invalid_interpolation_syntax (py_str (snd kv))
        then Raise ValueError
      else (case store_options rest of
              Ok opts \<Rightarrow> Ok ((fst kv, py_str (snd kv)) # opts)
            | r \<Rightarrow> r))"

text \<open>
  \<open>config_parser.write\<close> for the one section \<open>scar\<close>: the header, a line for each option
  (a line break inside a value is followed by a tab), and an empty line.
\<close>

fun indent_continuation :: "string \<Rightarrow> string" where
  "indent_continuation [] = []"
| "indent_continuation (c # cs) =
     (if c = CHR 0x0A then CHR 0x0A # CHR 0x09 # indent_continuation cs
      else c # indent_continuation cs)"

definition option_line :: "string \<times> string \<Rightarrow> string" where
  "option_line kv = fst kv @ '' = '' @ indent_continuation (snd kv) @ [CHR 0x0A]"

definition config_text :: "(string \<times> string) list \<Rightarrow> string" where
  "config_text opts = ''[scar]'' @ [CHR 0x0A] @ concat (map option_line opts) @ [CHR 0x0A]"

text \<open>
  \<open>os.makedirs(path, exist_ok=True)\<close>, the directories above \<open>path\<close> taken to be there or
  makeable: a file in the place of the directory is an error.
\<close>

definition os_makedirs :: "string \<Rightarrow> unit comp" where
  "os_makedirs path w =
     (if files w path \<noteq> None then (Raise FileExistsError, w)
      else (Ok (), w\<lparr>dirs := List.insert path (dirs w)\<rparr>))"

text \<open>
  \<open>with open(path, "w") as f\<close> and what is written to \<open>f\<close>, the directory of the file taken
  to be there: a directory in the place of the file is an error.
\<close>

definition write_file :: "string \<Rightarrow> string \<Rightarrow> unit comp" where
  "write_file path t w =
     (if path \<in> set (dirs w) \<or> trees w path \<noteq> None then (Raise IsADirectoryError, w)
      else (Ok (), w\<lparr>files := (files w)(path \<mapsto> Raw t)\<rparr>))"

definition config_created_message :: "string \<Rightarrow> string" where
  "config_created_message path =
     ''Config file '' @ [CHR 0x27] @ path @ [CHR 0x27] @ '' created.'' @ [CHR 0x0A] @
     ''Please, set first a valid lambda role to be used.''"

definition create_default_config_file :: "string \<Rightarrow> unit comp" where
  "create_default_config_file path =
     and_then (with_world (\<lambda>w. lift (store_options (get_default_json_config (self w)))))
       (\<lambda>opts.
     and_then (write_file path (config_text opts)) (\<lambda>_.
     and_then (logging_warning (config_created_message path)) (\<lambda>_.
     finish_successful_execution)))"

text \<open>
  The value of an option before interpolation: that of the section, else that of the
  \<open>DEFAULT\<close> section.
\<close>

definition cp_raw :: "sections \<Rightarrow> (string \<times> string) list \<Rightarrow> string \<Rightarrow> string option" where
  "cp_raw config_parser opts option =
     (case map_of opts option of
        Some v \<Rightarrow> Some v
      | None \<Rightarrow>
          (case map_of config_parser ''DEFAULT'' of
             Some defaults \<Rightarrow> map_of defaults option
           | None \<Rightarrow> None))"

text \<open>\<open>str.lower\<close> on the code points below 256.\<close>

definition py_lower :: "char \<Rightarrow> char" where
  "py_lower c =
     (let n = (of_char c :: nat) in
      if (65 \<le> n \<and> n \<le> 90) \<or> (192 \<le> n \<and> n \<le> 222 \<and> n \<noteq> 215) then char_of (n + 32)
      else c)"

text \<open>
  The interpolation \<open>get\<close> applies to a value: \<open>%%\<close> stands for \<open>%\<close>, \<open>%(name)s\<close> for the
  value of the option \<open>name\<close> (in lower case), itself interpolated when it has a \<open>%\<close>; any
  other \<open>%\<close> is an error, and so are a name that is no option and more than nine values
  inside one another. \<open>depth\<close> counts the values that may still be entered.
\<close>

fun interpolate :: "nat \<Rightarrow> (string \<Rightarrow> string option) \<Rightarrow> string \<Rightarrow> string outcome"
  and interpolate_reference ::
    "nat \<Rightarrow> (string \<Rightarrow> string option) \<Rightarrow> string \<Rightarrow> string \<Rightarrow> string outcome"
  where
  "interpolate depth options [] = Ok []"
| "interpolate depth options (c # cs) =
     (if c \<noteq> CHR ''%'' then
        (case interpolate depth options cs of Ok t \<Rightarrow> Ok (c # t) | r \<Rightarrow> r)
      else
        (case cs of
           [] \<Rightarrow> Raise InterpolationSyntaxError
         | d # ds \<Rightarrow>
             if d = CHR ''%'' then
               (case interpolate depth options ds of Ok t \<Rightarrow> Ok (CHR ''%'' # t) | r \<Rightarrow> r)
             else if d = CHR ''('' then interpolate_reference depth options [] ds
             else Raise InterpolationSyntaxError))"
| "interpolate_reference depth options var [] = Raise InterpolationSyntaxError"
| "interpolate_reference depth options var (c # cs) =
     (if c \<noteq> CHR '')'' then interpolate_reference depth options (var @ [c]) cs
      else if var = [] then Raise InterpolationSyntaxError
      else
        (case cs of
           [] \<Rightarrow> Raise InterpolationSyntaxError
         | d # rest \<Rightarrow>
             if d \<noteq> CHR ''s'' then Raise InterpolationSyntaxError
             else
               (case options (map py_lower var) of
                  None \<Rightarrow> Raise InterpolationMissingOptionError
                | Some v \<Rightarrow>
                    if CHR ''%'' \<in> set v then
                      (case depth of
                         0 \<Rightarrow> Raise InterpolationDepthError
                       | Suc remaining \<Rightarrow>
                           (case interpolate remaining options v of
                              Ok a \<Rightarrow>
                                (case interpolate depth options rest of
                                   Ok b \<Rightarrow> Ok (a @ b)
                                 | r \<Rightarrow> r)
                            | r \<Rightarrow> r))
                    else
                      (case interpolate depth options rest of
                         Ok b \<Rightarrow> Ok (v @ b)
                       | r \<Rightarrow> r))))"

text \<open>
  \<open>scar_config.get(option, fallback)\<close>: the interpolated value of the option, or \<open>None\<close>
  here when there is no such option, for which the caller takes its fallback.
\<close>

definition cp_get ::
  "sections \<Rightarrow> (string \<times> string) list \<Rightarrow> string \<Rightarrow> string option outcome" where
  "cp_get config_parser opts option =
     (case cp_raw config_parser opts option of
        None \<Rightarrow> Ok None
      | Some v \<Rightarrow>
          (case interpolate 9 (cp_raw config_parser opts) v of
             Ok t \<Rightarrow> Ok (Some t)
           | Raise e \<Rightarrow> Raise e
           | Exit st \<Rightarrow> Exit st))"

text \<open>\<open>scar_config.getint(option, fallback)\<close>: the fallback is returned as it is.\<close>

definition cp_getint ::
  "sections \<Rightarrow> (string \<times> string) list \<Rightarrow> string \<Rightarrow> pyval \<Rightarrow> pyval outcome" where
  "cp_getint config_parser opts option fallback =
     (case cp_get config_parser opts option of
        Ok None \<Rightarrow> Ok fallback
      | Ok (Some v) \<Rightarrow> (case py_int v of None \<Rightarrow> Raise ValueError | Some i \<Rightarrow> Ok (PInt i))
      | Raise e \<Rightarrow> Raise e
      | Exit st \<Rightarrow> Exit st)"

definition parse_config_file_values :: "sections \<Rightarrow> unit comp" where
  "parse_config_file_values config_parser =
     (case map_of config_parser ''scar'' of
        None \<Rightarrow> raise KeyError
      | Some scar_config \<Rightarrow>
          and_then (lift (cp_get config_parser scar_config ''lambda_role'')) (\<lambda>r.
          and_then (update_self (\<lambda>d. d\<lparr>role :=
            (case r of Some v \<Rightarrow> PStr v | None \<Rightarrow> role d)\<rparr>)) (\<lambda>_.
          and_then (lift (cp_get config_parser scar_config ''lambda_region'')) (\<lambda>r.
          and_then (update_self (\<lambda>d. d\<lparr>region :=
            (case r of Some v \<Rightarrow> v | None \<Rightarrow> region d)\<rparr>)) (\<lambda>_.
          and_then (with_world (\<lambda>w. lift (cp_getint config_parser scar_config ''lambda_memory''
                      (memory (self w))))) (\<lambda>m.
          and_then (update_self (\<lambda>d. d\<lparr>memory := m\<rparr>)) (\<lambda>_.
          and_then (with_world (\<lambda>w. lift (cp_getint config_parser scar_config ''lambda_time''
                      (time (self w))))) (\<lambda>t.
          and_then (update_self (\<lambda>d. d\<lparr>time := t\<rparr>)) (\<lambda>_.
          and_then (lift (cp_get config_parser scar_config ''lambda_description'')) (\<lambda>r.
          and_then (update_self (\<lambda>d. d\<lparr>description :=
            (case r of Some v \<Rightarrow> v | None \<Rightarrow> description d)\<rparr>)) (\<lambda>_.
          and_then (with_world (\<lambda>w. lift (cp_getint config_parser scar_config
                      ''lambda_timeout_threshold'' (timeout_threshold (self w))))) (\<lambda>tt.
          update_self (\<lambda>d. d\<lparr>timeout_threshold := tt\<rparr>)))))))))))))"

text \<open>\<open>config_parser.read(path)\<close>: a file that cannot be opened is passed over.\<close>

definition config_read :: "host \<Rightarrow> string \<Rightarrow> sections comp" where
  "config_read h path w =
     (case files w path of
        Some c \<Rightarrow> (parse_config h c, w)
      | None \<Rightarrow> (Ok [], w))"

definition check_config_file :: "host \<Rightarrow> unit comp" where
  "check_config_file h =
     and_then
       (with_world (\<lambda>w.
          if files w (config_file_path h) \<noteq> None
          then and_then (config_read h (config_file_path h)) parse_config_file_values
          else and_then (os_makedirs (config_file_folder h)) (\<lambda>_.
               create_default_config_file (config_file_path h))))
       (\<lambda>_. validate_lambda_configuration h)"

subsection \<open>The attribute binder\<close>

definition create_payload :: "string \<Rightarrow> pyval \<Rightarrow> string \<times> pyval" where
  "create_payload key val = (key, val)"

text \<open>Only a file object has \<open>read\<close> among the values of \<open>pyval\<close>.\<close>

definition get_escaped_script :: "host \<Rightarrow> pyval comp" where
  "get_escaped_script h =
     with_world (\<lambda>w.
       (case script (self w) of
          PFile r c \<Rightarrow> lift (escape_string h c)
        | _ \<Rightarrow> raise AttributeError))"

definition get_parsed_cont_args :: "host \<Rightarrow> pyval comp" where
  "get_parsed_cont_args h = with_world (\<lambda>w. lift (escape_list h (container_arguments (self w))))"

text \<open>
  \<open>args.__dict__\<close> for a value in the place of the parsed arguments: a function object has
  an empty dictionary, a file object opened for reading has the one entry \<open>mode\<close>, and the
  other values of \<open>pyval\<close> have no \<open>__dict__\<close>.
\<close>

definition obj_dict :: "pyval \<Rightarrow> (string \<times> pyval) list outcome" where
  "obj_dict v =
     (case v of
        PFunc n r \<Rightarrow> Ok []
      | PFile r c \<Rightarrow> Ok [(''mode'', PStr ''r'')]
      | _ \<Rightarrow> Raise AttributeError)"

text \<open>
  What \<open>getattr(self, method_name)\<close> finds for a name that starts with \<open>set_\<close>: a method
  that takes one argument besides \<open>self\<close>, or a method that takes none or two, whose call
  with one argument raises \<open>TypeError\<close>. \<open>set_attributes\<close> is one of the methods with one
  argument: \<open>nested\<close> is what calling it from inside the loop does.
\<close>

datatype bound_method = Unary "pyval \<Rightarrow> unit comp" | Other_arity

definition setters :: "aws_client \<Rightarrow> (pyval \<Rightarrow> unit comp) \<Rightarrow> (string \<times> bound_method) list" where
  "setters client nested =
     [(''set_log_stream_name'', Unary (\<lambda>v. update_self (set_log_stream_name v))),
      (''set_request_id'', Unary (\<lambda>v. update_self (set_request_id v))),
      (''set_payload'', Unary set_payload),
      (''set_cont_args'', Unary (\<lambda>v. update_self (set_cont_args v))),
      (''set_async'', Unary (\<lambda>v. update_self (set_async v))),
      (''set_func'', Unary set_func),
      (''set_asynchronous_call_parameters'', Other_arity),
      (''set_request_response_call_parameters'', Other_arity),
      (''set_name'', Unary set_name),
      (''set_image_id'', Unary (set_image_id client)),
      (''set_memory'', Unary (set_memory client)),
      (''set_time'', Unary (set_time client)),
      (''set_timeout_threshold'', Unary (\<lambda>v. update_self (set_timeout_threshold v))),
      (''set_json'', Unary (\<lambda>v. update_self (set_json v))),
      (''set_verbose'', Unary (\<lambda>v. update_self (set_verbose v))),
      (''set_script'', Unary (\<lambda>v. update_self (set_script v))),
      (''set_event_source'', Unary (\<lambda>v. update_self (set_event_source v))),
      (''set_event_source_file_name'', Unary (\<lambda>v. update_self (set_event_source_file_name v))),
      (''set_lambda_role'', Unary (\<lambda>v. update_self (set_lambda_role v))),
      (''set_recursive'', Unary (\<lambda>v. update_self (set_recursive v))),
      (''set_preheat'', Unary (\<lambda>v. update_self (set_preheat v))),
      (''set_extra_payload'', Unary (\<lambda>v. update_self (set_extra_payload v))),
      (''set_code'', Other_arity),
      (''set_evironment_variable'', Other_arity),
      (''set_required_environment_variables'', Other_arity),
      (''set_environment_variables'', Unary set_environment_variables),
      (''set_tags'', Other_arity),
      (''set_all'', Unary (\<lambda>v. update_self (set_all v))),
      (''set_attributes'', Unary nested)]"

definition call_setter ::
  "aws_client \<Rightarrow> (pyval \<Rightarrow> unit comp) \<Rightarrow> string \<Rightarrow> pyval \<Rightarrow> unit comp" where
  "call_setter client nested method_name val =
     (case map_of (setters client nested) method_name of
        None \<Rightarrow> raise AttributeError
      | Some Other_arity \<Rightarrow> raise TypeError
      | Some (Unary method) \<Rightarrow> method val)"

text \<open>\<open>try: ... except Exception as ex: logging.error(ex)\<close>.\<close>

definition try_log :: "unit comp \<Rightarrow> unit comp" where
  "try_log body w =
     (case body w of
        (Raise ex, w') \<Rightarrow> logging_error_exn ex w'
      | r \<Rightarrow> r)"

definition bind_attribute ::
  "aws_client \<Rightarrow> (pyval \<Rightarrow> unit comp) \<Rightarrow> (string \<times> pyval) list \<Rightarrow> string \<Rightarrow> unit comp" where
  "bind_attribute client nested args attr =
     (let val = get_argument_value args attr in
      try_log (if val \<noteq> PNone then call_setter client nested (''set_'' @ attr) val else ret ()))"

fun bind_loop ::
  "aws_client \<Rightarrow> (pyval \<Rightarrow> unit comp) \<Rightarrow> (string \<times> pyval) list \<Rightarrow> string list \<Rightarrow> unit comp"
  where
  "bind_loop client nested args [] = ret ()"
| "bind_loop client nested args (attr # rest) =
     and_then (bind_attribute client nested args attr) (\<lambda>_. bind_loop client nested args rest)"

definition derive_handler :: "unit comp" where
  "derive_handler =
     with_world (\<lambda>w.
       when_then (truthy (name (self w)))
         (and_then (lift (str_of_operand (name (self w)))) (\<lambda>nm.
          and_then (update_self (\<lambda>d. d\<lparr>handler := PStr (nm @ ''.lambda_handler'')\<rparr>)) (\<lambda>_.
          update_self (\<lambda>d. d\<lparr>log_group_name := PStr (''/aws/lambda/'' @ nm)\<rparr>)))))"

text \<open>
  The body of \<open>set_attributes\<close> on the dictionary of its argument, with \<open>nested\<close> for the
  method itself where the loop finds it.
\<close>

definition attributes_pass ::
  "(pyval \<Rightarrow> unit comp) \<Rightarrow> host \<Rightarrow> aws_client \<Rightarrow> (string \<times> pyval) list \<Rightarrow> unit comp" where
  "attributes_pass nested h client args =
     and_then (bind_loop client nested args (map fst args)) (\<lambda>_.
     and_then (check_function_name client) (\<lambda>_.
     and_then (update_self set_required_environment_variables) (\<lambda>_.
     and_then derive_handler (\<lambda>_.
     with_world (\<lambda>w.
       if scar_call (self w) = PStr ''init'' then
         and_then (set_tags client) (\<lambda>_. set_code h)
       else if scar_call (self w) = PStr ''run'' then
         and_then (update_function_attributes client args) (\<lambda>_.
         and_then (when_then (truthy (get_argument_value args ''script''))
                     (and_then (get_escaped_script h) (\<lambda>s.
                      set_payload_dict (create_payload ''script'' s)))) (\<lambda>_.
         when_then (truthy (get_argument_value args ''cont_args''))
           (and_then (get_parsed_cont_args h) (\<lambda>a.
            set_payload_dict (create_payload ''cmd_args'' a)))))
       else ret ())))))"

text \<open>
  \<open>set_attributes\<close> called from inside the loop, for the key \<open>attributes\<close>, with the value of
  the key as its argument: the pass runs on the dictionary of the value. This dictionary
  has no key \<open>attributes\<close>, so the inner pass never looks the method up again, and what
  stands for it there does not matter (lemma \<open>attributes_pass_nested\<close> below).
\<close>

definition set_attributes_of_value :: "host \<Rightarrow> aws_client \<Rightarrow> pyval \<Rightarrow> unit comp" where
  "set_attributes_of_value h client v =
     and_then (lift (obj_dict v)) (attributes_pass (\<lambda>_. ret ()) h client)"

text \<open>
  \<open>set_attributes\<close> on the parsed arguments, given by their dictionary. It satisfies the
  equation of the source, in which the loop calls the method itself (lemma
  \<open>set_attributes_of_value_unfold\<close> below).
\<close>

definition set_attributes :: "host \<Rightarrow> aws_client \<Rightarrow> (string \<times> pyval) list \<Rightarrow> unit comp" where
  "set_attributes h client args = attributes_pass (set_attributes_of_value h client) h client args"

subsection \<open>A fresh process\<close>

text \<open>
  The world a run starts in, with a new descriptor: nothing logged or printed yet, and the
  given files and directory trees.
\<close>

definition fresh_world ::
  "string \<Rightarrow> (string \<Rightarrow> fcontent option) \<Rightarrow> (string \<Rightarrow> dirtree option) \<Rightarrow> world" where
  "fresh_world tmpdir fs ts =
     \<lparr> self = AWSLambda_init tmpdir, log_records = [], printed = [], files = fs, dirs = [],
       trees = ts \<rparr>"

text \<open>A client that accepts everything, and a host, for the examples.\<close>

definition example_client :: aws_client where
  "example_client =
     \<lparr> create_function_name = (\<lambda>image. Ok (PStr ''scar-image'')),
       check_memory = Ok,
       check_time = Ok,
       get_user_name_or_id = Ok (PStr ''user''),
       check_function_name_exists = (\<lambda>n. Ok ()),
       check_function_name_not_exists = (\<lambda>n. Ok ()),
       update_function_memory = (\<lambda>n m. Ok ()),
       update_function_timeout = (\<lambda>n t. Ok ()),
       update_function_env_variables = (\<lambda>n e. Ok ()) \<rparr>"

text \<open>
  The reader of the example host knows the file that \<open>create_default_config_file\<close> writes
  for a new descriptor, and reads it as \<open>configparser\<close> does.
\<close>

definition default_config_text :: string where
  "default_config_text =
     ''[scar]'' @ [CHR 0x0A] @
     ''lambda_description = Automatically generated lambda function'' @ [CHR 0x0A] @
     ''lambda_memory = 512'' @ [CHR 0x0A] @
     ''lambda_time = 300'' @ [CHR 0x0A] @
     ''lambda_region = us-east-1'' @ [CHR 0x0A] @
     ''lambda_role = '' @ [CHR 0x0A] @
     ''lambda_timeout_threshold = 10'' @ [CHR 0x0A] @ [CHR 0x0A]"

definition default_config_sections :: sections where
  "default_config_sections =
     [(''scar'',
       [(''lambda_description'', ''Automatically generated lambda function''),
        (''lambda_memory'', ''512''),
        (''lambda_time'', ''300''),
        (''lambda_region'', ''us-east-1''),
        (''lambda_role'', ''''),
        (''lambda_timeout_threshold'', ''10'')])]"

definition example_host :: host where
  "example_host =
     \<lparr> home = ''/home/user'',
       scar_abs_path = ''/opt/scar'',
       escape_string = (\<lambda>s. Ok (PStr s)),
       escape_list = Ok,
       parse_config = (\<lambda>c. if c = Raw default_config_text then Ok default_config_sections
                            else Raise ParsingError) \<rparr>"
section \<open>Properties of the name validator\<close>

subsection \<open>The matcher lists exactly the ways to match\<close>

lemma star_bt_set: "t \<in> set (star_bt p s) \<longleftrightarrow> (\<exists>w. s = w @ t \<and> list_all p w)"
  by (induction s arbitrary: t) (auto simp: Cons_eq_append_conv)

lemma star_bt_hd: "\<exists>ts. star_bt p s = dropWhile p s # ts"
  by (induction s) auto

lemma plus_bt_set: "t \<in> set (plus_bt p s) \<longleftrightarrow> (\<exists>w. s = w @ t \<and> w \<noteq> [] \<and> list_all p w)"
  by (cases s) (auto simp: star_bt_set Cons_eq_append_conv)

lemma plus_bt_hd: "s = c # cs \<Longrightarrow> p c \<Longrightarrow> \<exists>ts. plus_bt p s = dropWhile p s # ts"
  using star_bt_hd [of p cs] by auto

lemma rep_bt_set: "t \<in> set (rep_bt p n s) \<longleftrightarrow> (\<exists>w. s = w @ t \<and> length w = n \<and> list_all p w)"
  by (induction p n s rule: rep_bt.induct) (auto simp: Cons_eq_append_conv length_Suc_conv)

lemma lit_prefix: "take (length w) s = w \<longleftrightarrow> (\<exists>t. s = w @ t)"
  by (metis append_eq_conv_conj append_take_drop_id)

lemma bt_lang: "t \<in> set (bt r s) \<longleftrightarrow> (\<exists>w \<in> lang r. s = w @ t)"
proof (induction r arbitrary: s t)
  case (Lit w)
  show ?case by (auto simp: lit_prefix)
next
  case (Seq a b)
  show ?case by (fastforce simp: Seq)
qed (auto simp: star_bt_set plus_bt_set rep_bt_set)

subsection \<open>An optional part before a pattern\<close>

lemma concat_map_same:
  assumes "\<And>x. x \<in> set xs \<Longrightarrow> x = t" and "xs \<noteq> []"
  shows "\<exists>k. concat (map f xs) = f t @ k"
  using assms by (cases xs) auto

lemma concat_map_same_nil:
  assumes "\<And>x. x \<in> set xs \<Longrightarrow> x = t" and "f t = []"
  shows "concat (map f xs) = []"
  using assms by auto

lemma opt_seq_first:
  assumes U: "\<And>t t'. t \<in> set (bt X s) \<Longrightarrow> t' \<in> set (bt X s) \<Longrightarrow> t = t'"
    and D: "\<And>t. t \<in> set (bt X s) \<Longrightarrow> [] \<in> set (bt Y s) \<Longrightarrow> [] \<in> set (bt Y t) \<or> bt Y t = []"
    and G: "\<And>t. [] \<in> set (bt Y t) \<Longrightarrow> \<exists>ts. bt Y t = [] # ts"
    and full: "[] \<in> set (bt (Seq (Opt X) Y) s)"
  shows "\<exists>ts. bt (Seq (Opt X) Y) s = [] # ts"
proof -
  have eq: "bt (Seq (Opt X) Y) s = concat (map (bt Y) (bt X s)) @ bt Y s"
    by simp
  show ?thesis
  proof (cases "bt X s")
    case Nil
    with full G [of s] show ?thesis by simp
  next
    case (Cons t ts)
    then have t_in: "t \<in> set (bt X s)" by simp
    have same: "\<And>x. x \<in> set (bt X s) \<Longrightarrow> x = t"
      using U t_in by blast
    show ?thesis
    proof (cases "bt Y t")
      case Nil
      have "concat (map (bt Y) (bt X s)) = []"
        using concat_map_same_nil [of "bt X s" t "bt Y"] same Nil by blast
      then have eq': "bt (Seq (Opt X) Y) s = bt Y s"
        using eq by simp
      from full have "[] \<in> set (bt Y s)" unfolding eq' .
      then obtain ts' where "bt Y s = [] # ts'" using G by blast
      then show ?thesis unfolding eq' by blast
    next
      case (Cons u us)
      have "[] \<in> set (bt Y t)"
      proof -
        from full have "(\<exists>x \<in> set (bt X s). [] \<in> set (bt Y x)) \<or> [] \<in> set (bt Y s)"
          by auto
        then show ?thesis
        proof
          assume "\<exists>x \<in> set (bt X s). [] \<in> set (bt Y x)"
          then show ?thesis using same by blast
        next
          assume "[] \<in> set (bt Y s)"
          with D [OF t_in] Cons show ?thesis by auto
        qed
      qed
      then obtain ts' where h: "bt Y t = [] # ts'" using G by blast
      have ne: "bt X s \<noteq> []" using \<open>bt X s = t # ts\<close> by simp
      obtain k where "concat (map (bt Y) (bt X s)) = bt Y t @ k"
        using concat_map_same [OF same ne, of "bt Y"] by blast
      with h eq show ?thesis by simp
    qed
  qed
qed

subsection \<open>Character classes\<close>

lemma name_set_match [simp]: "atom_match name_set = is_name_char"
  by (rule ext) (auto simp: name_set_def is_name_char_def is_lower_def is_upper_def is_digit_def)

lemma lower_set_match [simp]: "atom_match lower_set = is_lower"
  by (rule ext) (auto simp: lower_set_def is_lower_def)

lemma partition_set_match [simp]:
  "atom_match partition_set = (\<lambda>c. is_lower c \<or> is_upper c \<or> c = CHR ''-'')"
  by (rule ext) (auto simp: partition_set_def is_lower_def is_upper_def)

lemma digit_match [simp]: "atom_match Digit = is_digit"
  by (rule ext) (simp add: is_digit_def)

lemma not_name_colon [simp]: "\<not> is_name_char CHR '':''"
  by (simp add: is_name_char_def is_lower_def is_upper_def is_digit_def)

lemma not_name_dollar [simp]: "\<not> is_name_char CHR ''$''"
  by (simp add: is_name_char_def is_lower_def is_upper_def is_digit_def)

lemma lower_name: "is_lower c \<Longrightarrow> is_name_char c"
  by (simp add: is_name_char_def)

lemma digit_name: "is_digit c \<Longrightarrow> is_name_char c"
  by (simp add: is_name_char_def)

lemma digit_not_lower: "is_digit c \<Longrightarrow> \<not> is_lower c"
  by (simp add: is_digit_def is_lower_def)

lemma name_chars_no_colon: "list_all is_name_char u \<Longrightarrow> CHR '':'' \<notin> set u"
  by (induction u) auto

lemma colon_split:
  "CHR '':'' \<notin> set u \<Longrightarrow> CHR '':'' \<notin> set u' \<Longrightarrow> u @ CHR '':'' # t = u' @ CHR '':'' # t'
   \<Longrightarrow> u = u' \<and> t = t'"
proof (induction u arbitrary: u')
  case Nil
  then show ?case by (cases u') auto
next
  case (Cons a u)
  then show ?case by (cases u') auto
qed

subsection \<open>The language of each part\<close>

lemma lang_function: "lang function_part = {''function:''}"
  by (simp add: function_part_def)

lemma lang_account: "w \<in> lang account_part \<longleftrightarrow> account_segment w"
  by (auto simp: account_part_def account_segment_def)

lemma length2: "length u = 2 \<longleftrightarrow> (\<exists>a b. u = [a, b])"
  by (auto simp: numeral_2_eq_2 length_Suc_conv)

lemma length1: "length u = Suc 0 \<longleftrightarrow> (\<exists>a. u = [a])"
  by (auto simp: length_Suc_conv)

lemma lang_qualifier: "w \<in> lang qualifier_part \<longleftrightarrow> qualifier w"
  by (auto simp: qualifier_part_def qualifier_def name_token_def)

lemma lang_name: "w \<in> lang name_part \<longleftrightarrow> name_token w"
  by (auto simp: name_part_def name_token_def)

lemma lang_tail:
  "w \<in> lang tail_part \<longleftrightarrow> (\<exists>n q. w = n @ q \<and> name_token n \<and> (q = [] \<or> qualifier q))"
  unfolding tail_part_def lang.simps mem_Collect_eq insert_iff lang_name lang_qualifier
  by blast

lemma lang_SeqI: "u \<in> lang a \<Longrightarrow> v \<in> lang b \<Longrightarrow> u @ v \<in> lang (Seq a b)"
  by auto

lemma lang_region: "w \<in> lang region_part \<longleftrightarrow> region_segment w"
proof
  assume "w \<in> lang region_part"
  then obtain u g word d where h:
    "w = u @ g @ ''-'' @ word @ ''-'' @ d @ '':''" "length u = 2" "list_all is_lower u"
    "g = [] \<or> g = ''-gov''" "word \<noteq> []" "list_all is_lower word" "length d = 1" "list_all is_digit d"
    unfolding region_part_def by (simp del: append.simps) blast
  from h(2,7) obtain a b dd where ab: "u = [a, b]" "d = [dd]"
    by (auto simp: length2 length1)
  show "region_segment w"
    unfolding region_segment_def
    apply (rule exI [of _ a], rule exI [of _ b], rule exI [of _ g], rule exI [of _ word],
        rule exI [of _ dd])
    using h ab by simp
next
  assume "region_segment w"
  then obtain a b g word d where h:
    "w = [a, b] @ g @ ''-'' @ word @ ''-'' @ [d] @ '':''" "is_lower a" "is_lower b"
    "g = [] \<or> g = ''-gov''" "word \<noteq> []" "list_all is_lower word" "is_digit d"
    unfolding region_segment_def by blast
  have 1: "[a, b] \<in> lang (Rep 2 lower_set)" using h by simp
  have 2: "g \<in> lang (Opt (Lit ''-gov''))" using h by auto
  have 3: "word \<in> lang (Plus lower_set)" using h by simp
  have 4: "[d] \<in> lang (Rep 1 Digit)" using h by simp
  have "[a, b] @ g @ ''-'' @ word @ ''-'' @ [d] @ '':'' \<in> lang region_part"
    unfolding region_part_def
    by (intro lang_SeqI 1 2 3 4) simp_all
  then show "w \<in> lang region_part" using h by simp
qed

lemma lang_arn: "w \<in> lang arn_part \<longleftrightarrow> arn_prefix w"
  unfolding arn_part_def arn_prefix_def by (simp del: append.simps) blast

lemma lang_opt_seq:
  "w \<in> lang (Seq (Opt a) b) \<longleftrightarrow> (\<exists>x y. w = x @ y \<and> (x = [] \<or> x \<in> lang a) \<and> y \<in> lang b)"
  by auto

lemma lang_from_function:
  "w \<in> lang from_function \<longleftrightarrow> (\<exists>f y. w = f @ y \<and> (f = [] \<or> f = ''function:'') \<and> y \<in> lang tail_part)"
  unfolding from_function_def lang_opt_seq lang_function by simp

lemma lang_from_account:
  "w \<in> lang from_account \<longleftrightarrow> (\<exists>a y. w = a @ y \<and> (a = [] \<or> account_segment a) \<and> y \<in> lang from_function)"
  unfolding from_account_def lang_opt_seq lang_account by simp

lemma lang_from_region:
  "w \<in> lang from_region \<longleftrightarrow> (\<exists>r y. w = r @ y \<and> (r = [] \<or> region_segment r) \<and> y \<in> lang from_account)"
  unfolding from_region_def lang_opt_seq lang_region by simp

lemma lang_aws_name_regex:
  "w \<in> lang aws_name_regex \<longleftrightarrow> (\<exists>p y. w = p @ y \<and> (p = [] \<or> arn_prefix p) \<and> y \<in> lang from_region)"
  unfolding aws_name_regex_def lang_opt_seq lang_arn by simp

lemma lang_naming_grammar: "w \<in> lang aws_name_regex \<longleftrightarrow> naming_grammar w"
proof
  assume "w \<in> lang aws_name_regex"
  then obtain p y1 where 1: "w = p @ y1" "p = [] \<or> arn_prefix p" "y1 \<in> lang from_region"
    unfolding lang_aws_name_regex by blast
  then obtain r y2 where 2: "y1 = r @ y2" "r = [] \<or> region_segment r" "y2 \<in> lang from_account"
    unfolding lang_from_region by blast
  then obtain a y3 where 3: "y2 = a @ y3" "a = [] \<or> account_segment a" "y3 \<in> lang from_function"
    unfolding lang_from_account by blast
  then obtain f y4 where 4: "y3 = f @ y4" "f = [] \<or> f = ''function:''" "y4 \<in> lang tail_part"
    unfolding lang_from_function by blast
  then obtain n q where 5: "y4 = n @ q" "name_token n" "q = [] \<or> qualifier q"
    unfolding lang_tail by blast
  have "w = p @ r @ a @ f @ n @ q"
    using 1(1) 2(1) 3(1) 4(1) 5(1) by simp
  then show "naming_grammar w"
    unfolding naming_grammar_def using 1(2) 2(2) 3(2) 4(2) 5(2,3) by blast
next
  assume "naming_grammar w"
  then obtain p r a f n q where h: "w = p @ r @ a @ f @ n @ q"
    "p = [] \<or> arn_prefix p" "r = [] \<or> region_segment r" "a = [] \<or> account_segment a"
    "f = [] \<or> f = ''function:''" "name_token n" "q = [] \<or> qualifier q"
    unfolding naming_grammar_def by blast
  have 5: "n @ q \<in> lang tail_part"
    unfolding lang_tail using h(6,7) by blast
  have 4: "f @ n @ q \<in> lang from_function"
    unfolding lang_from_function using h(5) 5 by blast
  have 3: "a @ f @ n @ q \<in> lang from_account"
    unfolding lang_from_account using h(4) 4 by blast
  have 2: "r @ a @ f @ n @ q \<in> lang from_region"
    unfolding lang_from_region using h(3) 3 by blast
  show "w \<in> lang aws_name_regex"
    unfolding lang_aws_name_regex h(1) using h(2) 2 by blast
qed

subsection \<open>Segments end at their colon\<close>

lemma digits_no_colon: "list_all is_digit u \<Longrightarrow> CHR '':'' \<notin> set u"
  using name_chars_no_colon [of u] by (simp add: list_all_iff digit_name)

lemma lowers_no_colon: "list_all is_lower u \<Longrightarrow> CHR '':'' \<notin> set u"
  using name_chars_no_colon [of u] by (simp add: list_all_iff lower_name)

lemma not_lower_colon [simp]: "\<not> is_lower CHR '':''"
  by (simp add: is_lower_def)

lemma not_upper_colon [simp]: "\<not> is_upper CHR '':''"
  by (simp add: is_upper_def)

lemma not_digit_colon [simp]: "\<not> is_digit CHR '':''"
  by (simp add: is_digit_def)

lemma account_body:
  "account_segment w \<Longrightarrow>
   \<exists>u. w = u @ '':'' \<and> CHR '':'' \<notin> set u \<and> u \<noteq> [] \<and> is_digit (hd u)"
proof -
  assume "account_segment w"
  then obtain ds where h: "w = ds @ '':''" "length ds = 12" "list_all is_digit ds"
    unfolding account_segment_def by blast
  then have "ds \<noteq> []" by auto
  with h(3) have "is_digit (hd ds)" by (cases ds) auto
  with h \<open>ds \<noteq> []\<close> digits_no_colon [OF h(3)] show ?thesis by blast
qed

lemma region_body:
  "region_segment w \<Longrightarrow>
   \<exists>u. w = u @ '':'' \<and> CHR '':'' \<notin> set u \<and> u \<noteq> [] \<and> is_lower (hd u) \<and>
       2 < length u \<and> u ! 2 = CHR ''-''"
proof -
  assume "region_segment w"
  then obtain a b g word d where h:
    "w = [a, b] @ g @ ''-'' @ word @ ''-'' @ [d] @ '':''" "is_lower a" "is_lower b"
    "g = [] \<or> g = ''-gov''" "word \<noteq> []" "list_all is_lower word" "is_digit d"
    unfolding region_segment_def by blast
  let ?u = "[a, b] @ g @ ''-'' @ word @ ''-'' @ [d]"
  have "w = ?u @ '':''" using h(1) by simp
  moreover have "CHR '':'' \<notin> set ?u"
    using h lowers_no_colon [of word] by auto
  moreover have "?u \<noteq> [] \<and> is_lower (hd ?u) \<and> 2 < length ?u \<and> ?u ! 2 = CHR ''-''"
    using h by auto
  ultimately show ?thesis by blast
qed

lemma arn_body:
  "arn_prefix w \<Longrightarrow> \<exists>p. w = ''arn:'' @ p @ '':lambda:'' \<and> CHR '':'' \<notin> set p"
proof -
  assume "arn_prefix w"
  then obtain p where h: "w = ''arn:'' @ p @ '':lambda:''"
    "p = [] \<or> (\<exists>x. p = ''aws'' @ x \<and>
       list_all (\<lambda>c. is_lower c \<or> is_upper c \<or> c = CHR ''-'') x)"
    unfolding arn_prefix_def by blast
  have "CHR '':'' \<notin> set p"
  proof
    assume c: "CHR '':'' \<in> set p"
    with h(2) obtain x where x: "p = ''aws'' @ x"
      "\<forall>c \<in> set x. is_lower c \<or> is_upper c \<or> c = CHR ''-''"
      by (auto simp: list_all_iff)
    with c have "CHR '':'' \<in> set x" by simp
    with x(2) have "is_lower CHR '':'' \<or> is_upper CHR '':'' \<or> CHR '':'' = CHR ''-''"
      by (rule bspec)
    then show False by simp
  qed
  with h(1) show ?thesis by blast
qed

lemma tail_first_segment:
  assumes "CHR '':'' \<notin> set u" and "u @ CHR '':'' # t \<in> lang tail_part"
  shows "t = ''$LATEST'' \<or> name_token t"
proof -
  from assms(2) obtain n q where h: "u @ CHR '':'' # t = n @ q" "name_token n" "q = [] \<or> qualifier q"
    unfolding lang_tail by blast
  have n: "CHR '':'' \<notin> set n"
    using h(2) name_chars_no_colon by (simp add: name_token_def)
  show ?thesis
  proof (cases "q = []")
    case True
    have "CHR '':'' \<in> set (u @ CHR '':'' # t)" by simp
    with h(1) True n have False by simp
    then show ?thesis ..
  next
    case False
    with h(3) obtain q0 where q: "q = CHR '':'' # q0" "q0 = ''$LATEST'' \<or> name_token q0"
      unfolding qualifier_def by auto
    with h(1) have "u @ CHR '':'' # t = n @ CHR '':'' # q0" by simp
    from colon_split [OF assms(1) n this] q(2) show ?thesis by simp
  qed
qed

lemma name_token_tail: "name_token t \<Longrightarrow> t \<in> lang tail_part"
  unfolding lang_tail by (rule exI [of _ t], rule exI [of _ "[]"]) simp

lemma name_token_from_function: "name_token t \<Longrightarrow> t \<in> lang from_function"
  unfolding lang_from_function
  by (rule exI [of _ "[]"], rule exI [of _ t]) (simp add: name_token_tail)

lemma name_token_from_account: "name_token t \<Longrightarrow> t \<in> lang from_account"
  unfolding lang_from_account
  by (rule exI [of _ "[]"], rule exI [of _ t]) (simp add: name_token_from_function)

lemma name_token_from_region: "name_token t \<Longrightarrow> t \<in> lang from_region"
  unfolding lang_from_region
  by (rule exI [of _ "[]"], rule exI [of _ t]) (simp add: name_token_from_account)

lemma is_name_char_f [simp]: "is_name_char CHR ''f''"
  by (simp add: is_name_char_def is_lower_def)

lemma is_name_char_a [simp]: "is_name_char CHR ''a''"
  by (simp add: is_name_char_def is_lower_def)

lemma tail_starts: "v \<in> lang tail_part \<Longrightarrow> v \<noteq> [] \<and> is_name_char (hd v)"
proof -
  assume "v \<in> lang tail_part"
  then obtain n q where "v = n @ q" "n \<noteq> []" "list_all is_name_char n"
    unfolding lang_tail name_token_def by blast
  then show ?thesis by (cases n) auto
qed

lemma from_function_starts: "v \<in> lang from_function \<Longrightarrow> v \<noteq> [] \<and> is_name_char (hd v)"
  unfolding lang_from_function using tail_starts by auto

lemma from_account_starts: "v \<in> lang from_account \<Longrightarrow> v \<noteq> [] \<and> is_name_char (hd v)"
proof -
  assume "v \<in> lang from_account"
  then obtain a y where h: "v = a @ y" "a = [] \<or> account_segment a" "y \<in> lang from_function"
    unfolding lang_from_account by blast
  show ?thesis
  proof (cases "a = []")
    case True
    with h from_function_starts show ?thesis by simp
  next
    case False
    with h(2) account_body [of a] obtain u where "a = u @ '':''" "u \<noteq> []" "is_digit (hd u)"
      by blast
    with h(1) show ?thesis by (simp add: digit_name)
  qed
qed

lemma from_region_starts: "v \<in> lang from_region \<Longrightarrow> v \<noteq> [] \<and> is_name_char (hd v)"
proof -
  assume "v \<in> lang from_region"
  then obtain r y where h: "v = r @ y" "r = [] \<or> region_segment r" "y \<in> lang from_account"
    unfolding lang_from_region by blast
  show ?thesis
  proof (cases "r = []")
    case True
    with h from_account_starts show ?thesis by simp
  next
    case False
    with h(2) region_body [of r] obtain u where "r = u @ '':''" "u \<noteq> []" "is_lower (hd u)"
      by blast
    with h(1) show ?thesis by (simp add: lower_name)
  qed
qed

lemma bt_dollar:
  assumes "\<And>v. v \<in> lang Y \<Longrightarrow> v \<noteq> [] \<and> is_name_char (hd v)"
  shows "bt Y ''$LATEST'' = []"
proof (rule ccontr)
  assume "bt Y ''$LATEST'' \<noteq> []"
  then obtain t where "t \<in> set (bt Y ''$LATEST'')"
    by (cases "bt Y ''$LATEST''") auto
  then obtain w where w: "w \<in> lang Y" "''$LATEST'' = w @ t"
    unfolding bt_lang by blast
  with assms [of w] have "hd w = CHR ''$''"
    by (cases w) auto
  with assms [OF w(1)] show False by simp
qed

subsection \<open>One way to read a prefix\<close>

lemma unique_end_colon_body:
  assumes body: "\<And>w. w \<in> lang X \<Longrightarrow> \<exists>u. w = u @ '':'' \<and> CHR '':'' \<notin> set u"
    and "t \<in> set (bt X s)" and "t' \<in> set (bt X s)"
  shows "t = t'"
proof -
  from assms(2,3) obtain w w' where w: "w \<in> lang X" "s = w @ t" "w' \<in> lang X" "s = w' @ t'"
    unfolding bt_lang by blast
  from body [OF w(1)] body [OF w(3)] obtain u u' where
    u: "w = u @ '':''" "CHR '':'' \<notin> set u" "w' = u' @ '':''" "CHR '':'' \<notin> set u'"
    by blast
  with w have "u @ CHR '':'' # t = u' @ CHR '':'' # t'" by simp
  from colon_split [OF u(2) u(4) this] show ?thesis by simp
qed

lemma unique_end_arn:
  assumes "t \<in> set (bt arn_part s)" and "t' \<in> set (bt arn_part s)"
  shows "t = t'"
proof -
  from assms obtain w w' where w: "arn_prefix w" "s = w @ t" "arn_prefix w'" "s = w' @ t'"
    unfolding bt_lang using lang_arn by blast
  from arn_body [OF w(1)] arn_body [OF w(3)] obtain p p' where
    p: "w = ''arn:'' @ p @ '':lambda:''" "CHR '':'' \<notin> set p"
       "w' = ''arn:'' @ p' @ '':lambda:''" "CHR '':'' \<notin> set p'"
    by blast
  with w have "p @ CHR '':'' # (''lambda:'' @ t) = p' @ CHR '':'' # (''lambda:'' @ t')" by simp
  from colon_split [OF p(2) p(4) this] show ?thesis by simp
qed

lemma function_body:
  "w \<in> lang function_part \<Longrightarrow> \<exists>u. w = u @ '':'' \<and> CHR '':'' \<notin> set u \<and> u = ''function''"
  unfolding lang_function by simp

lemma from_function_cases:
  assumes "CHR '':'' \<notin> set u" and "u @ CHR '':'' # t \<in> lang from_function"
  shows "u = ''function'' \<or> u @ CHR '':'' # t \<in> lang tail_part"
proof -
  from assms(2) obtain f y where h: "u @ CHR '':'' # t = f @ y" "f = [] \<or> f = ''function:''"
    "y \<in> lang tail_part"
    unfolding lang_from_function by blast
  show ?thesis
  proof (cases "f = []")
    case True
    with h show ?thesis by simp
  next
    case False
    with h have "u @ CHR '':'' # t = ''function'' @ CHR '':'' # y" by auto
    from colon_split [OF assms(1) _ this] show ?thesis by simp
  qed
qed

lemma from_account_cases:
  assumes "CHR '':'' \<notin> set u" and "u @ CHR '':'' # t \<in> lang from_account"
  shows "(u \<noteq> [] \<and> is_digit (hd u)) \<or> u = ''function'' \<or> u @ CHR '':'' # t \<in> lang tail_part"
proof -
  from assms(2) obtain a y where h: "u @ CHR '':'' # t = a @ y" "a = [] \<or> account_segment a"
    "y \<in> lang from_function"
    unfolding lang_from_account by blast
  show ?thesis
  proof (cases "a = []")
    case True
    with h from_function_cases [OF assms(1), of t] show ?thesis by simp
  next
    case False
    with h(2) account_body [of a] obtain u' where
      u': "a = u' @ '':''" "CHR '':'' \<notin> set u'" "u' \<noteq> []" "is_digit (hd u')"
      by blast
    with h(1) have "u @ CHR '':'' # t = u' @ CHR '':'' # y" by simp
    from colon_split [OF assms(1) u'(2) this] u' show ?thesis by simp
  qed
qed

lemma from_region_cases:
  assumes "CHR '':'' \<notin> set u" and "u @ CHR '':'' # t \<in> lang from_region"
  shows "(u \<noteq> [] \<and> is_lower (hd u) \<and> 2 < length u \<and> u ! 2 = CHR ''-'') \<or>
         (u \<noteq> [] \<and> is_digit (hd u)) \<or> u = ''function'' \<or>
         u @ CHR '':'' # t \<in> lang tail_part"
proof -
  from assms(2) obtain r y where h: "u @ CHR '':'' # t = r @ y" "r = [] \<or> region_segment r"
    "y \<in> lang from_account"
    unfolding lang_from_region by blast
  show ?thesis
  proof (cases "r = []")
    case True
    with h from_account_cases [OF assms(1), of t] show ?thesis by auto
  next
    case False
    with h(2) region_body [of r] obtain u' where
      u': "r = u' @ '':''" "CHR '':'' \<notin> set u'" "u' \<noteq> []" "is_lower (hd u')"
          "2 < length u'" "u' ! 2 = CHR ''-''"
      by blast
    with h(1) have "u @ CHR '':'' # t = u' @ CHR '':'' # y" by simp
    from colon_split [OF assms(1) u'(2) this] u' show ?thesis by simp
  qed
qed

lemma later_match_after_segment:
  assumes body: "\<And>w. w \<in> lang X \<Longrightarrow> \<exists>u. w = u @ '':'' \<and> CHR '':'' \<notin> set u \<and> P u"
    and cases_Y: "\<And>u t. CHR '':'' \<notin> set u \<Longrightarrow> P u \<Longrightarrow> u @ CHR '':'' # t \<in> lang Y \<Longrightarrow>
                    u @ CHR '':'' # t \<in> lang tail_part"
    and token_Y: "\<And>t. name_token t \<Longrightarrow> t \<in> lang Y"
    and starts_Y: "\<And>v. v \<in> lang Y \<Longrightarrow> v \<noteq> [] \<and> is_name_char (hd v)"
    and "t \<in> set (bt X s)" and "[] \<in> set (bt Y s)"
  shows "[] \<in> set (bt Y t) \<or> bt Y t = []"
proof -
  from assms(5) obtain w where w: "w \<in> lang X" "s = w @ t"
    unfolding bt_lang by blast
  from body [OF w(1)] obtain u where u: "w = u @ '':''" "CHR '':'' \<notin> set u" "P u"
    by blast
  from assms(6) have "s \<in> lang Y"
    unfolding bt_lang by simp
  with w(2) u(1) have "u @ CHR '':'' # t \<in> lang Y" by simp
  from cases_Y [OF u(2,3) this] have "u @ CHR '':'' # t \<in> lang tail_part" .
  from tail_first_segment [OF u(2) this] show ?thesis
  proof
    assume "t = ''$LATEST''"
    with bt_dollar [of Y] starts_Y show ?thesis by blast
  next
    assume "name_token t"
    then have "t \<in> lang Y" by (rule token_Y)
    then have "[] \<in> set (bt Y t)" unfolding bt_lang by simp
    then show ?thesis ..
  qed
qed

subsection \<open>The first match is the whole string when one is\<close>

lemma dropWhile_all: "list_all p xs \<Longrightarrow> dropWhile p (xs @ ys) = dropWhile p ys"
  by (induction xs) auto

lemma bt_qualifier_empty: "bt (Opt qualifier_part) [] = [[]]"
  by (simp add: qualifier_part_def)

lemma bt_qualifier_latest: "\<exists>ts. bt (Opt qualifier_part) '':$LATEST'' = [] # ts"
  by (simp add: qualifier_part_def)

lemma bt_qualifier_token:
  assumes "name_token q"
  shows "\<exists>ts. bt (Opt qualifier_part) (CHR '':'' # q) = [] # ts"
proof -
  from assms obtain c cs where q: "q = c # cs" "is_name_char c" "list_all is_name_char q"
    unfolding name_token_def by (cases q) auto
  then have "c \<noteq> CHR ''$''" by auto
  with q(1) have 1: "bt (Lit ''$LATEST'') q = []" by simp
  from plus_bt_hd [of q c cs is_name_char] q(1,2)
  obtain ts where "plus_bt is_name_char q = dropWhile is_name_char q # ts"
    by blast
  moreover have "dropWhile is_name_char q = []"
    using dropWhile_all [OF q(3), of "[]"] by simp
  ultimately have 2: "plus_bt is_name_char q = [] # ts" by simp
  show ?thesis
    using 1 2 by (simp add: qualifier_part_def)
qed

lemma tail_first:
  assumes "[] \<in> set (bt tail_part s)"
  shows "\<exists>ts. bt tail_part s = [] # ts"
proof -
  from assms have "s \<in> lang tail_part" unfolding bt_lang by simp
  then obtain n q where h: "s = n @ q" "name_token n" "q = [] \<or> qualifier q"
    unfolding lang_tail by blast
  from h(2) obtain c cs where n: "n = c # cs" "is_name_char c" "list_all is_name_char n"
    unfolding name_token_def by (cases n) auto
  have q: "dropWhile is_name_char q = q"
    using h(3) by (auto simp: qualifier_def)
  have "s = c # (cs @ q)" using h(1) n(1) by simp
  from plus_bt_hd [of s c "cs @ q" is_name_char] this n(2) obtain ts where
    "plus_bt is_name_char s = dropWhile is_name_char s # ts" by blast
  with dropWhile_all [OF n(3), of q] q h(1)
  have p: "plus_bt is_name_char s = q # ts" by simp
  have "\<exists>ts'. bt (Opt qualifier_part) q = [] # ts'"
    using h(3) bt_qualifier_empty bt_qualifier_latest bt_qualifier_token
    unfolding qualifier_def by auto
  then obtain ts' where "bt (Opt qualifier_part) q = [] # ts'" by blast
  with p show ?thesis
    by (simp add: tail_part_def name_part_def)
qed

lemma not_digit_f [simp]: "\<not> is_digit CHR ''f''"
  by (simp add: is_digit_def)

lemma account_then_function:
  assumes "CHR '':'' \<notin> set u" and "u \<noteq> [] \<and> is_digit (hd u)"
    and "u @ CHR '':'' # t \<in> lang from_function"
  shows "u @ CHR '':'' # t \<in> lang tail_part"
proof -
  from from_function_cases [OF assms(1,3)] show ?thesis
  proof
    assume "u = ''function''"
    with assms(2) show ?thesis by simp
  qed
qed

lemma region_then_account:
  assumes "CHR '':'' \<notin> set u"
    and "u \<noteq> [] \<and> is_lower (hd u) \<and> 2 < length u \<and> u ! 2 = CHR ''-''"
    and "u @ CHR '':'' # t \<in> lang from_account"
  shows "u @ CHR '':'' # t \<in> lang tail_part"
proof -
  from from_account_cases [OF assms(1,3)]
  consider "u \<noteq> [] \<and> is_digit (hd u)" | "u = ''function''" | "u @ CHR '':'' # t \<in> lang tail_part"
    by blast
  then show ?thesis
  proof cases
    case 1
    with assms(2) digit_not_lower show ?thesis by blast
  next
    case 2
    with assms(2) show ?thesis by simp
  next
    case 3
    then show ?thesis .
  qed
qed

lemma from_function_first:
  assumes "[] \<in> set (bt from_function s)"
  shows "\<exists>ts. bt from_function s = [] # ts"
  unfolding from_function_def
proof (rule opt_seq_first)
  show "[] \<in> set (bt (Seq (Opt function_part) tail_part) s)"
    using assms by (simp only: from_function_def)
  show "\<And>t. [] \<in> set (bt tail_part t) \<Longrightarrow> \<exists>ts. bt tail_part t = [] # ts"
    by (rule tail_first)
  show "\<And>t t'. t \<in> set (bt function_part s) \<Longrightarrow> t' \<in> set (bt function_part s) \<Longrightarrow> t = t'"
    using unique_end_colon_body [of function_part] function_body by blast
  show "\<And>t. t \<in> set (bt function_part s) \<Longrightarrow> [] \<in> set (bt tail_part s) \<Longrightarrow>
      [] \<in> set (bt tail_part t) \<or> bt tail_part t = []"
    by (rule later_match_after_segment [of function_part "\<lambda>u. u = ''function''" tail_part])
      (auto simp: function_body name_token_tail tail_starts)
qed

lemma from_account_first:
  assumes "[] \<in> set (bt from_account s)"
  shows "\<exists>ts. bt from_account s = [] # ts"
  unfolding from_account_def
proof (rule opt_seq_first)
  show "[] \<in> set (bt (Seq (Opt account_part) from_function) s)"
    using assms by (simp only: from_account_def)
  show "\<And>t. [] \<in> set (bt from_function t) \<Longrightarrow> \<exists>ts. bt from_function t = [] # ts"
    by (rule from_function_first)
  have body: "\<And>w. w \<in> lang account_part \<Longrightarrow>
      \<exists>u. w = u @ '':'' \<and> CHR '':'' \<notin> set u \<and> (u \<noteq> [] \<and> is_digit (hd u))"
    using account_body lang_account by blast
  show "\<And>t t'. t \<in> set (bt account_part s) \<Longrightarrow> t' \<in> set (bt account_part s) \<Longrightarrow> t = t'"
    using unique_end_colon_body [of account_part] body by blast
  have cases_Y: "\<And>u t. CHR '':'' \<notin> set u \<Longrightarrow> u \<noteq> [] \<and> is_digit (hd u) \<Longrightarrow>
      u @ CHR '':'' # t \<in> lang from_function \<Longrightarrow> u @ CHR '':'' # t \<in> lang tail_part"
    by (rule account_then_function)
  show "\<And>t. t \<in> set (bt account_part s) \<Longrightarrow> [] \<in> set (bt from_function s) \<Longrightarrow>
      [] \<in> set (bt from_function t) \<or> bt from_function t = []"
    by (rule later_match_after_segment [of account_part "\<lambda>u. u \<noteq> [] \<and> is_digit (hd u)"
          from_function, OF body cases_Y name_token_from_function from_function_starts])
qed

lemma from_region_first:
  assumes "[] \<in> set (bt from_region s)"
  shows "\<exists>ts. bt from_region s = [] # ts"
  unfolding from_region_def
proof (rule opt_seq_first)
  show "[] \<in> set (bt (Seq (Opt region_part) from_account) s)"
    using assms by (simp only: from_region_def)
  show "\<And>t. [] \<in> set (bt from_account t) \<Longrightarrow> \<exists>ts. bt from_account t = [] # ts"
    by (rule from_account_first)
  have body: "\<And>w. w \<in> lang region_part \<Longrightarrow>
      \<exists>u. w = u @ '':'' \<and> CHR '':'' \<notin> set u \<and>
          (u \<noteq> [] \<and> is_lower (hd u) \<and> 2 < length u \<and> u ! 2 = CHR ''-'')"
    using region_body lang_region by blast
  show "\<And>t t'. t \<in> set (bt region_part s) \<Longrightarrow> t' \<in> set (bt region_part s) \<Longrightarrow> t = t'"
    using unique_end_colon_body [of region_part] body by blast
  have cases_Y: "\<And>u t. CHR '':'' \<notin> set u \<Longrightarrow>
      u \<noteq> [] \<and> is_lower (hd u) \<and> 2 < length u \<and> u ! 2 = CHR ''-'' \<Longrightarrow>
      u @ CHR '':'' # t \<in> lang from_account \<Longrightarrow> u @ CHR '':'' # t \<in> lang tail_part"
    by (rule region_then_account)
  show "\<And>t. t \<in> set (bt region_part s) \<Longrightarrow> [] \<in> set (bt from_account s) \<Longrightarrow>
      [] \<in> set (bt from_account t) \<or> bt from_account t = []"
    by (rule later_match_after_segment [of region_part
          "\<lambda>u. u \<noteq> [] \<and> is_lower (hd u) \<and> 2 < length u \<and> u ! 2 = CHR ''-''"
          from_account, OF body cases_Y name_token_from_account from_account_starts])
qed

lemma not_digit_a [simp]: "\<not> is_digit CHR ''a''"
  by (simp add: is_digit_def)

lemma arn_then_region_impossible:
  assumes "t \<in> set (bt arn_part s)" and "[] \<in> set (bt from_region s)"
  shows False
proof -
  from assms(1) obtain w where w: "arn_prefix w" "s = w @ t"
    unfolding bt_lang using lang_arn by blast
  from arn_body [OF w(1)] obtain p where p: "w = ''arn:'' @ p @ '':lambda:''" "CHR '':'' \<notin> set p"
    by blast
  let ?rest = "p @ '':lambda:'' @ t"
  have s: "s = ''arn'' @ CHR '':'' # ?rest"
    using w(2) p(1) by simp
  have colon: "CHR '':'' \<in> set ?rest" by simp
  from assms(2) have "s \<in> lang from_region"
    unfolding bt_lang by simp
  then have in_lang: "''arn'' @ CHR '':'' # ?rest \<in> lang from_region"
    using s by simp
  have "CHR '':'' \<notin> set ''arn''" by simp
  from from_region_cases [OF this in_lang]
  have "''arn'' @ CHR '':'' # ?rest \<in> lang tail_part"
    by simp
  from tail_first_segment [OF \<open>CHR '':'' \<notin> set ''arn''\<close> this]
  show False
  proof
    assume r: "?rest = ''$LATEST''"
    from colon have "CHR '':'' \<in> set ''$LATEST''" unfolding r .
    then show False by simp
  next
    assume "name_token ?rest"
    then have "CHR '':'' \<notin> set ?rest"
      unfolding name_token_def using name_chars_no_colon by blast
    with colon show False by simp
  qed
qed

lemma aws_name_regex_first:
  assumes "[] \<in> set (bt aws_name_regex s)"
  shows "\<exists>ts. bt aws_name_regex s = [] # ts"
  unfolding aws_name_regex_def
proof (rule opt_seq_first)
  show "[] \<in> set (bt (Seq (Opt arn_part) from_region) s)"
    using assms by (simp only: aws_name_regex_def)
  show "\<And>t. [] \<in> set (bt from_region t) \<Longrightarrow> \<exists>ts. bt from_region t = [] # ts"
    by (rule from_region_first)
  show "\<And>t t'. t \<in> set (bt arn_part s) \<Longrightarrow> t' \<in> set (bt arn_part s) \<Longrightarrow> t = t'"
    by (rule unique_end_arn)
  show "\<And>t. t \<in> set (bt arn_part s) \<Longrightarrow> [] \<in> set (bt from_region s) \<Longrightarrow>
      [] \<in> set (bt from_region t) \<or> bt from_region t = []"
    using arn_then_region_impossible by blast
qed

lemma re_match_whole_iff:
  "re_match aws_name_regex s = Some s \<longleftrightarrow> s \<in> lang aws_name_regex"
proof
  assume m: "re_match aws_name_regex s = Some s"
  then obtain t ts where b: "bt aws_name_regex s = t # ts" "take (length s - length t) s = s"
    unfolding re_match_def by (auto split: list.splits)
  then have "t \<in> set (bt aws_name_regex s)" by simp
  then obtain w where w: "w \<in> lang aws_name_regex" "s = w @ t"
    unfolding bt_lang by blast
  with b(2) have "t = []" by simp
  with w show "s \<in> lang aws_name_regex" by simp
next
  assume "s \<in> lang aws_name_regex"
  then have "[] \<in> set (bt aws_name_regex s)"
    unfolding bt_lang by simp
  from aws_name_regex_first [OF this] obtain ts where "bt aws_name_regex s = [] # ts"
    by blast
  then show "re_match aws_name_regex s = Some s"
    by (simp add: re_match_def)
qed

subsection \<open>The validator and the grammar\<close>

lemma is_valid_name_str:
  "is_valid_name (PStr s) = Ok (PBool True) \<longleftrightarrow> naming_grammar s"
proof
  assume v: "is_valid_name (PStr s) = Ok (PBool True)"
  then have "re_match aws_name_regex s = Some s"
    by (auto simp: is_valid_name_def split: if_splits option.splits)
  then show "naming_grammar s"
    using re_match_whole_iff lang_naming_grammar by blast
next
  assume g: "naming_grammar s"
  then have m: "re_match aws_name_regex s = Some s"
    using re_match_whole_iff lang_naming_grammar by blast
  from g have "s \<noteq> []"
    unfolding naming_grammar_def name_token_def by auto
  with m show "is_valid_name (PStr s) = Ok (PBool True)"
    by (simp add: is_valid_name_def)
qed

text \<open>
  The validator on the strings of this theory, whose code points are below 256 and for
  which \<open>\d\<close> is \<open>0\<close> to \<open>9\<close>: it returns true exactly when the whole string matches the
  naming grammar (a bare name of letters, digits, hyphens and underscores, or an identifier
  with optional arn and partition prefix, optional region, optional twelve-digit account,
  optional \<open>function:\<close> tag, a name, and an optional qualifier \<open>$LATEST\<close> or token); it
  returns false for \<open>None\<close>, for the empty string, and for a string with characters left
  over after the match. Claim C1 says this of every string. It does not hold beyond these
  strings: for a Python string \<open>\d\<close> is any decimal digit of Unicode, so that the digit of
  the region and the digits of the account may be, for instance, Arabic-Indic digits.
\<close>

theorem is_valid_name_iff_grammar:
  "(is_valid_name (PStr s) = Ok (PBool True) \<longleftrightarrow> naming_grammar s) \<and>
   is_valid_name PNone = Ok (PBool False) \<and>
   is_valid_name (PStr []) = Ok (PBool False) \<and>
   (re_match aws_name_regex s = Some matched \<and> matched \<noteq> s \<longrightarrow>
      is_valid_name (PStr s) = Ok (PBool False))"
  using is_valid_name_str [of s]
  by (auto simp: is_valid_name_def)

theorem is_valid_name_iff_grammar_witness:
  "re_match aws_name_regex ''my func'' = Some ''my'' \<and>
   is_valid_name (PStr ''my func'') = Ok (PBool False) \<and>
   \<not> naming_grammar ''my func''"
proof -
  have m: "re_match aws_name_regex ''my func'' = Some ''my''"
    by code_simp
  from is_valid_name_iff_grammar [of "''my func''" "''my''"] m
  have a: "is_valid_name (PStr ''my func'') = Ok (PBool False)"
    and b: "is_valid_name (PStr ''my func'') = Ok (PBool True) \<longleftrightarrow> naming_grammar ''my func''"
    by blast+
  from a b have "\<not> naming_grammar ''my func''" by simp
  with m a show ?thesis by simp
qed

lemma is_valid_name_arn_example:
  "is_valid_name
     (PStr ''arn:aws:lambda:us-east-1:123456789012:function:my-func:$LATEST'') =
   Ok (PBool True)"
  by code_simp

section \<open>Properties of the descriptor\<close>

subsection \<open>Invocation mode\<close>

lemma set_async_true_fields:
  "truthy v \<Longrightarrow>
   asynchronous_call (set_async v d) = True \<and>
   invocation_type (set_async v d) = ''Event'' \<and>
   log_type (set_async v d) = ''None''"
  by (simp add: set_async_def set_asynchronous_call_parameters_def)

lemma set_async_false_fields:
  "\<not> truthy v \<Longrightarrow>
   asynchronous_call (set_async v d) = False \<and>
   invocation_type (set_async v d) = ''RequestResponse'' \<and>
   log_type (set_async v d) = ''Tail''"
  by (simp add: set_async_def set_request_response_call_parameters_def)

lemma set_async_touches_three_fields:
  "set_async v d =
     d\<lparr>asynchronous_call := asynchronous_call (set_async v d),
       invocation_type := invocation_type (set_async v d),
       log_type := log_type (set_async v d)\<rparr>"
  by (simp add: set_async_def set_asynchronous_call_parameters_def
      set_request_response_call_parameters_def)

text \<open>
  Claim C3. Setting asynchronous mode to true sets the three dependent fields together
  (flag true, invocation type \<open>Event\<close>, log type \<open>None\<close>); setting it to false sets the
  synchronous values (flag false, \<open>RequestResponse\<close>, \<open>Tail\<close>); and on a descriptor in the
  initial synchronous state, setting it to true and then to false gives back the original
  invocation type and log type.
\<close>

theorem set_async_atomic_and_restores:
  "asynchronous_call (set_async (PBool True) d) = True \<and>
   invocation_type (set_async (PBool True) d) = ''Event'' \<and>
   log_type (set_async (PBool True) d) = ''None'' \<and>
   asynchronous_call (set_async (PBool False) d) = False \<and>
   invocation_type (set_async (PBool False) d) = ''RequestResponse'' \<and>
   log_type (set_async (PBool False) d) = ''Tail'' \<and>
   (invocation_type d = invocation_type (AWSLambda_init tmp) \<and>
    log_type d = log_type (AWSLambda_init tmp) \<longrightarrow>
    invocation_type (set_async (PBool False) (set_async (PBool True) d)) = invocation_type d \<and>
    log_type (set_async (PBool False) (set_async (PBool True) d)) = log_type d)"
  using set_async_true_fields [of "PBool True"] set_async_false_fields [of "PBool False"]
  by (simp add: AWSLambda_init_def)

theorem set_async_atomic_and_restores_witness:
  "invocation_type (set_async (PBool False) (set_async (PBool True) (AWSLambda_init ''/tmp'')))
     = ''RequestResponse'' \<and>
   log_type (set_async (PBool False) (set_async (PBool True) (AWSLambda_init ''/tmp'')))
     = ''Tail''"
  using set_async_atomic_and_restores [of "AWSLambda_init ''/tmp''" "''/tmp''"]
  by (simp add: AWSLambda_init_def)

section \<open>Fields that a step leaves alone\<close>

named_theorems keeps_intro

lemma keeps_ret [keeps_intro]: "keeps g (ret x)"
  by (simp add: keeps_def ret_def)

lemma keeps_raise [keeps_intro]: "keeps g (raise e)"
  by (simp add: keeps_def raise_def)

lemma keeps_lift [keeps_intro]: "keeps g (lift r)"
  by (simp add: keeps_def lift_def)

lemma keeps_finish_failed [keeps_intro]: "keeps g finish_failed_execution"
  by (simp add: keeps_def finish_failed_execution_def)

lemma keeps_finish_successful [keeps_intro]: "keeps g finish_successful_execution"
  by (simp add: keeps_def finish_successful_execution_def)

lemma keeps_logging [keeps_intro]:
  "keeps g (logging_error msg)" "keeps g (logging_error_exn ex)" "keeps g (logging_warning msg)"
  "keeps g (print line)"
  by (simp_all add: keeps_def logging_error_def logging_error_exn_def logging_warning_def
      print_def)

lemma keeps_and_then [keeps_intro]:
  assumes "keeps g m" and "\<And>x. keeps g (f x)"
  shows "keeps g (and_then m f)"
  unfolding keeps_def
proof
  fix w
  show "g (self (snd (and_then m f w))) = g (self w)"
  proof (cases "m w")
    case (Pair r w')
    with assms(1) have 1: "g (self w') = g (self w)"
      unfolding keeps_def by (metis snd_conv)
    show ?thesis
    proof (cases r)
      case (Ok x)
      with Pair have "and_then m f w = f x w'" by (simp add: and_then_def)
      with assms(2) [of x] 1 show ?thesis unfolding keeps_def by simp
    qed (use Pair 1 in \<open>simp_all add: and_then_def\<close>)
  qed
qed

lemma keeps_with_world [keeps_intro]:
  assumes "\<And>w0. keeps g (f w0)"
  shows "keeps g (with_world f)"
  using assms by (simp add: keeps_def with_world_def)

lemma keeps_when_then [keeps_intro]: "keeps g m \<Longrightarrow> keeps g (when_then b m)"
  by (simp add: when_then_def keeps_ret)

lemma keeps_if [keeps_intro]: "keeps g a \<Longrightarrow> keeps g b \<Longrightarrow> keeps g (if c then a else b)"
  by simp

lemma keeps_update_self: "(\<And>d. g (f d) = g d) \<Longrightarrow> keeps g (update_self f)"
  by (simp add: keeps_def update_self_def)

lemma keeps_try_log [keeps_intro]: "keeps g m \<Longrightarrow> keeps g (try_log m)"
  unfolding keeps_def
proof
  fix w
  assume k: "\<forall>w. g (self (snd (m w))) = g (self w)"
  show "g (self (snd (try_log m w))) = g (self w)"
  proof (cases "m w")
    case (Pair r w')
    with k have "g (self w') = g (self w)" by (metis snd_conv)
    with Pair show ?thesis
      by (cases r) (simp_all add: try_log_def logging_error_exn_def)
  qed
qed

lemma keeps_file_steps [keeps_intro]:
  "keeps g (shutil_copy src dst)" "keeps g (os_remove path)" "keeps g (zip_open_w zp)"
  "keeps g (zip_open_a zp)" "keeps g (zip_add zp c arc)" "keeps g (zf_write zp fn arc)"
  "keeps g (read_file path)" "keeps g (write_file path t)" "keeps g (os_makedirs path)"
  "keeps g (config_read h path)"
  by (auto simp: keeps_def shutil_copy_def os_remove_def zip_open_w_def zip_open_a_def
      zip_add_def zf_write_def read_file_def write_file_def os_makedirs_def config_read_def
      split: option.splits fcontent.splits outcome.splits)

lemma keeps_zip_files_loop [keeps_intro]: "keeps g (zip_files_loop zp n base fs)"
  by (induction fs) (auto intro!: keeps_intro simp: Let_def)

lemma keeps_zip_walk_loop [keeps_intro]: "keeps g (zip_walk_loop zp n es)"
  by (induction es) (auto intro!: keeps_intro)

lemma keeps_zip_folder [keeps_intro]: "keeps g (zip_folder zp t)"
  unfolding zip_folder_def by (auto intro!: keeps_intro split: pyval.splits)

lemma keeps_write_init_script [keeps_intro]: "keeps g (write_init_script zp s)"
  unfolding write_init_script_def by (auto intro!: keeps_intro split: pyval.splits)

subsection \<open>The setters leave role, handler and log group alone\<close>

lemma plain_setters_keep:
  "keeps role (update_self (set_log_stream_name v))"
  "keeps role (update_self (set_request_id v))"
  "keeps role (update_self (set_cont_args v))"
  "keeps role (update_self (set_async v))"
  "keeps role (update_self (set_timeout_threshold v))"
  "keeps role (update_self (set_json v))"
  "keeps role (update_self (set_verbose v))"
  "keeps role (update_self (set_script v))"
  "keeps role (update_self (set_event_source v))"
  "keeps role (update_self (set_event_source_file_name v))"
  "keeps role (update_self (set_lambda_role v))"
  "keeps role (update_self (set_recursive v))"
  "keeps role (update_self (set_preheat v))"
  "keeps role (update_self (set_extra_payload v))"
  "keeps role (update_self (set_all v))"
  "keeps handler (update_self (set_log_stream_name v))"
  "keeps handler (update_self (set_request_id v))"
  "keeps handler (update_self (set_cont_args v))"
  "keeps handler (update_self (set_async v))"
  "keeps handler (update_self (set_timeout_threshold v))"
  "keeps handler (update_self (set_json v))"
  "keeps handler (update_self (set_verbose v))"
  "keeps handler (update_self (set_script v))"
  "keeps handler (update_self (set_event_source v))"
  "keeps handler (update_self (set_event_source_file_name v))"
  "keeps handler (update_self (set_lambda_role v))"
  "keeps handler (update_self (set_recursive v))"
  "keeps handler (update_self (set_preheat v))"
  "keeps handler (update_self (set_extra_payload v))"
  "keeps handler (update_self (set_all v))"
  "keeps log_group_name (update_self (set_log_stream_name v))"
  "keeps log_group_name (update_self (set_request_id v))"
  "keeps log_group_name (update_self (set_cont_args v))"
  "keeps log_group_name (update_self (set_async v))"
  "keeps log_group_name (update_self (set_timeout_threshold v))"
  "keeps log_group_name (update_self (set_json v))"
  "keeps log_group_name (update_self (set_verbose v))"
  "keeps log_group_name (update_self (set_script v))"
  "keeps log_group_name (update_self (set_event_source v))"
  "keeps log_group_name (update_self (set_event_source_file_name v))"
  "keeps log_group_name (update_self (set_lambda_role v))"
  "keeps log_group_name (update_self (set_recursive v))"
  "keeps log_group_name (update_self (set_preheat v))"
  "keeps log_group_name (update_self (set_extra_payload v))"
  "keeps log_group_name (update_self (set_all v))"
  by (rule keeps_update_self;
      simp add: set_log_stream_name_def set_request_id_def set_cont_args_def set_async_def
        set_asynchronous_call_parameters_def set_request_response_call_parameters_def
        set_timeout_threshold_def set_json_def set_verbose_def set_script_def
        set_event_source_def set_event_source_file_name_def set_lambda_role_def
        set_recursive_def set_preheat_def set_extra_payload_def set_all_def)+

lemma set_payload_keeps [keeps_intro]:
  "keeps role (set_payload v)" "keeps handler (set_payload v)"
  "keeps log_group_name (set_payload v)" "keeps name (set_payload v)"
  unfolding set_payload_def by (auto intro!: keeps_intro keeps_update_self)

lemma set_payload_dict_keeps [keeps_intro]:
  "keeps role (set_payload_dict kv)" "keeps handler (set_payload_dict kv)"
  "keeps log_group_name (set_payload_dict kv)" "keeps name (set_payload_dict kv)"
  unfolding set_payload_dict_def by (auto intro!: keeps_intro keeps_update_self)

lemma set_func_keeps [keeps_intro]:
  "keeps role (set_func v)" "keeps handler (set_func v)" "keeps log_group_name (set_func v)"
  unfolding set_func_def by (auto intro!: keeps_intro keeps_update_self split: pyval.splits)

lemma set_name_keeps [keeps_intro]:
  "keeps role (set_name v)" "keeps handler (set_name v)" "keeps log_group_name (set_name v)"
  unfolding set_name_def by (auto intro!: keeps_intro keeps_update_self)

lemma set_image_id_keeps [keeps_intro]:
  "keeps role (set_image_id c v)" "keeps handler (set_image_id c v)"
  "keeps log_group_name (set_image_id c v)"
  unfolding set_image_id_def by (auto intro!: keeps_intro keeps_update_self)

lemma set_memory_keeps [keeps_intro]:
  "keeps role (set_memory c v)" "keeps handler (set_memory c v)"
  "keeps log_group_name (set_memory c v)"
  unfolding set_memory_def by (auto intro!: keeps_intro keeps_update_self)

lemma set_time_keeps [keeps_intro]:
  "keeps role (set_time c v)" "keeps handler (set_time c v)"
  "keeps log_group_name (set_time c v)"
  unfolding set_time_def by (auto intro!: keeps_intro keeps_update_self)

lemma set_evironment_variable_fields [simp]:
  "role (set_evironment_variable k v d) = role d"
  "handler (set_evironment_variable k v d) = handler d"
  "log_group_name (set_evironment_variable k v d) = log_group_name d"
  "name (set_evironment_variable k v d) = name d"
  by (simp_all add: set_evironment_variable_def)

lemma bind_env_var_keeps [keeps_intro]:
  "keeps role (bind_env_var v)" "keeps handler (bind_env_var v)"
  "keeps log_group_name (bind_env_var v)"
  unfolding bind_env_var_def
  by (auto intro!: keeps_intro keeps_update_self split: pyval.splits list.splits)

lemma env_loop_keeps [keeps_intro]:
  "keeps role (env_loop vs)" "keeps handler (env_loop vs)" "keeps log_group_name (env_loop vs)"
  by (induction vs) (auto intro!: keeps_intro)

lemma set_environment_variables_keeps [keeps_intro]:
  "keeps role (set_environment_variables v)" "keeps handler (set_environment_variables v)"
  "keeps log_group_name (set_environment_variables v)"
  unfolding set_environment_variables_def by (auto intro!: keeps_intro)

lemma setters_keep:
  assumes "map_of (setters client nested) n = Some (Unary f)"
    and "\<And>v. keeps role (nested v)"
  shows "keeps role (f v)"
proof -
  from assms(1) have "(n, Unary f) \<in> set (setters client nested)"
    by (rule map_of_SomeD)
  then show ?thesis
    unfolding setters_def
    by (auto intro!: keeps_intro plain_setters_keep assms(2))
qed

subsection \<open>The binder leaves the role alone\<close>

lemma call_setter_keeps:
  assumes "\<And>v. keeps role (nested v)"
  shows "keeps role (call_setter client nested n v)"
  unfolding call_setter_def
  by (auto intro!: keeps_intro setters_keep assms split: option.splits bound_method.splits)

lemma bind_attribute_keeps:
  assumes "\<And>v. keeps role (nested v)"
  shows "keeps role (bind_attribute client nested args attr)"
  unfolding bind_attribute_def Let_def
  by (auto intro!: keeps_intro call_setter_keeps assms)

lemma bind_loop_keeps:
  assumes "\<And>v. keeps role (nested v)"
  shows "keeps role (bind_loop client nested args attrs)"
  by (induction attrs) (auto intro!: keeps_intro bind_attribute_keeps assms)

lemma check_function_name_keeps [keeps_intro]: "keeps g (check_function_name client)"
  unfolding check_function_name_def by (auto intro!: keeps_intro)

lemma update_function_attributes_keeps [keeps_intro]:
  "keeps g (update_function_attributes client args)"
  unfolding update_function_attributes_def by (auto intro!: keeps_intro)

lemma required_environment_variables_keeps [keeps_intro]:
  "keeps role (update_self set_required_environment_variables)"
  "keeps handler (update_self set_required_environment_variables)"
  "keeps log_group_name (update_self set_required_environment_variables)"
  "keeps name (update_self set_required_environment_variables)"
  by (rule keeps_update_self; simp add: set_required_environment_variables_def Let_def)+

lemma set_tags_keeps [keeps_intro]:
  "keeps role (set_tags client)" "keeps handler (set_tags client)"
  "keeps log_group_name (set_tags client)" "keeps name (set_tags client)"
  unfolding set_tags_def by (auto intro!: keeps_intro keeps_update_self)

lemma create_zip_file_keeps [keeps_intro]:
  "keeps role (create_zip_file h)" "keeps handler (create_zip_file h)"
  "keeps log_group_name (create_zip_file h)" "keeps name (create_zip_file h)"
  unfolding create_zip_file_def Let_def
  by (auto intro!: keeps_intro keeps_update_self)

lemma set_code_keeps [keeps_intro]:
  "keeps role (set_code h)" "keeps handler (set_code h)"
  "keeps log_group_name (set_code h)" "keeps name (set_code h)"
  unfolding set_code_def by (auto intro!: keeps_intro keeps_update_self)

lemma get_escaped_script_keeps [keeps_intro]: "keeps g (get_escaped_script h)"
  unfolding get_escaped_script_def by (auto intro!: keeps_intro split: pyval.splits)

lemma get_parsed_cont_args_keeps [keeps_intro]: "keeps g (get_parsed_cont_args h)"
  unfolding get_parsed_cont_args_def by (auto intro!: keeps_intro)

lemma derive_handler_keeps [keeps_intro]:
  "keeps role derive_handler" "keeps name derive_handler"
  unfolding derive_handler_def by (auto intro!: keeps_intro keeps_update_self)

lemma attributes_pass_keeps_role:
  assumes "\<And>v. keeps role (nested v)"
  shows "keeps role (attributes_pass nested h client args)"
  unfolding attributes_pass_def
  by (auto intro!: keeps_intro bind_loop_keeps assms)

lemma set_attributes_of_value_keeps_role: "keeps role (set_attributes_of_value h client v)"
  unfolding set_attributes_of_value_def
  by (auto intro!: keeps_intro attributes_pass_keeps_role)

lemma set_attributes_keeps_role: "keeps role (set_attributes h client args)"
  unfolding set_attributes_def
  by (rule attributes_pass_keeps_role) (rule set_attributes_of_value_keeps_role)

subsection \<open>The pass inside the pass\<close>

lemma setters_but_set_attributes:
  "n \<noteq> ''set_attributes'' \<Longrightarrow>
   map_of (setters client inner) n = map_of (setters client other) n"
  by (simp add: setters_def)

lemma call_setter_nested:
  "attr \<noteq> ''attributes'' \<Longrightarrow>
   call_setter client inner (''set_'' @ attr) v = call_setter client other (''set_'' @ attr) v"
  unfolding call_setter_def
  by (subst setters_but_set_attributes [where inner = inner and other = other]) simp_all

lemma bind_attribute_nested:
  "attr \<noteq> ''attributes'' \<Longrightarrow>
   bind_attribute client inner args attr = bind_attribute client other args attr"
  using call_setter_nested [where inner = inner and other = other and attr = attr and client = client]
  by (simp add: bind_attribute_def Let_def)

lemma bind_loop_nested:
  "''attributes'' \<notin> set attrs \<Longrightarrow>
   bind_loop client inner args attrs = bind_loop client other args attrs"
  by (induction attrs) (auto simp: bind_attribute_nested [where inner = inner and other = other])

lemma attributes_pass_nested:
  "''attributes'' \<notin> fst ` set args \<Longrightarrow>
   attributes_pass inner h client args = attributes_pass other h client args"
  unfolding attributes_pass_def
  by (simp add: bind_loop_nested [where inner = inner and other = other])

lemma obj_dict_keys: "obj_dict v = Ok d \<Longrightarrow> ''attributes'' \<notin> fst ` set d"
  by (auto simp: obj_dict_def split: pyval.splits)

text \<open>The equation of the source: the method the loop finds is \<open>set_attributes\<close> itself.\<close>

lemma set_attributes_of_value_unfold:
  "set_attributes_of_value h client v = and_then (lift (obj_dict v)) (set_attributes h client)"
proof
  fix w
  show "set_attributes_of_value h client v w =
    and_then (lift (obj_dict v)) (set_attributes h client) w"
  proof (cases "obj_dict v")
    case (Ok d)
    from obj_dict_keys [OF this]
    have "attributes_pass (\<lambda>_. ret ()) h client d =
        attributes_pass (set_attributes_of_value h client) h client d"
      by (rule attributes_pass_nested)
    with Ok show ?thesis
      by (simp add: set_attributes_of_value_def set_attributes_def and_then_def lift_def)
  qed (simp_all add: set_attributes_of_value_def and_then_def lift_def)
qed

lemma set_attributes_unfold:
  "set_attributes h client args =
     attributes_pass (\<lambda>v. and_then (lift (obj_dict v)) (set_attributes h client)) h client args"
proof -
  have eq: "set_attributes_of_value h client =
      (\<lambda>v. and_then (lift (obj_dict v)) (set_attributes h client))"
    by (rule ext) (rule set_attributes_of_value_unfold)
  have "set_attributes h client args =
      attributes_pass (set_attributes_of_value h client) h client args"
    by (rule set_attributes_def)
  then show ?thesis
    by (simp only: eq)
qed

subsection \<open>The role\<close>

lemma keepsD: "keeps g m \<Longrightarrow> m w = (r, w') \<Longrightarrow> g (self w') = g (self w)"
  unfolding keeps_def by (metis snd_conv)

lemma and_then_Ok:
  assumes "and_then m f w = (Ok y, w')"
  obtains x w1 where "m w = (Ok x, w1)" and "f x w1 = (Ok y, w')"
proof (cases "m w")
  case (Pair r w1)
  with assms show ?thesis
    by (cases r) (auto simp: and_then_def intro: that)
qed

lemma and_then_step: "m w = (Ok x, w1) \<Longrightarrow> and_then m f w = f x w1"
  by (simp add: and_then_def)

lemma validate_depends_on_role:
  "role (self w1) = role (self w2) \<Longrightarrow>
   fst (validate_lambda_configuration h w1) = fst (validate_lambda_configuration h w2)"
  by (simp add: validate_lambda_configuration_def with_world_def when_then_def and_then_def
      logging_error_def finish_failed_execution_def ret_def)

lemma and_then_update_self_keeps:
  assumes "\<And>x. keeps g (k x)"
  shows "g (self (snd (and_then (update_self f) k w))) = g (f (self w))"
proof -
  have "and_then (update_self f) k w = k () (w\<lparr>self := f (self w)\<rparr>)"
    by (simp add: and_then_def update_self_def)
  with assms [of "()"] show ?thesis
    unfolding keeps_def by simp
qed

lemma parse_config_file_values_role:
  assumes "map_of secs ''scar'' = Some opts" and "cp_get secs opts ''lambda_role'' = Ok r"
  shows "role (self (snd (parse_config_file_values secs w))) =
    (case r of Some v \<Rightarrow> PStr v | None \<Rightarrow> role (self w))"
  apply (simp only: parse_config_file_values_def assms option.case)
  apply (subst and_then_step [of "lift (Ok r)" w r w])
   apply (simp add: lift_def)
  apply (rule trans [OF and_then_update_self_keeps [where g = role]])
   apply (auto intro!: keeps_intro keeps_update_self split: option.splits)
  done

text \<open>
  Claim C10. \<open>set_lambda_role\<close> stores its value in the separate attribute \<open>lambda_role\<close>
  and leaves the field \<open>role\<close> as it was; \<open>role\<close>, which \<open>validate_lambda_configuration\<close>
  consults, is assigned by the parsing of the config file only, so that binding a role
  through the attribute pass neither satisfies nor changes the validation of the role.
\<close>

theorem set_lambda_role_leaves_role:
  "role (set_lambda_role v d) = role d \<and>
   lambda_role (set_lambda_role v d) = Some v \<and>
   role (self (snd (set_attributes h client args w))) = role (self w) \<and>
   fst (validate_lambda_configuration h (snd (set_attributes h client args w))) =
     fst (validate_lambda_configuration h w) \<and>
   (map_of secs ''scar'' = Some opts \<and> cp_get secs opts ''lambda_role'' = Ok (Some r) \<longrightarrow>
      role (self (snd (parse_config_file_values secs w))) = PStr r)"
proof -
  have 1: "role (self (snd (set_attributes h client args w))) = role (self w)"
    using set_attributes_keeps_role unfolding keeps_def by blast
  from validate_depends_on_role [OF 1] 1
    parse_config_file_values_role [of secs opts "Some r" w]
  show ?thesis
    by (auto simp: set_lambda_role_def)
qed

theorem set_lambda_role_leaves_role_witness:
  "role (set_lambda_role (PStr ''arn:role'') (AWSLambda_init ''/tmp'')) = PNone \<and>
   lambda_role (set_lambda_role (PStr ''arn:role'') (AWSLambda_init ''/tmp'')) =
     Some (PStr ''arn:role'') \<and>
   role (self (snd (set_attributes example_host example_client
     [(''lambda_role'', PStr ''arn:role'')] (fresh_world ''/tmp'' Map.empty Map.empty)))) = PNone \<and>
   fst (validate_lambda_configuration example_host (snd (set_attributes example_host example_client
     [(''lambda_role'', PStr ''arn:role'')] (fresh_world ''/tmp'' Map.empty Map.empty)))) =
     Exit Failure \<and>
   role (self (snd (parse_config_file_values [(''scar'', [(''lambda_role'', ''arn:role'')])]
     (fresh_world ''/tmp'' Map.empty Map.empty)))) = PStr ''arn:role''"
  using set_lambda_role_leaves_role [of "PStr ''arn:role''" "AWSLambda_init ''/tmp''"
      example_host example_client "[(''lambda_role'', PStr ''arn:role'')]"
      "fresh_world ''/tmp'' Map.empty Map.empty" "[(''scar'', [(''lambda_role'', ''arn:role'')])]"
      "[(''lambda_role'', ''arn:role'')]" "''arn:role''"]
  by (simp add: cp_get_def cp_raw_def fresh_world_def AWSLambda_init_def
      validate_lambda_configuration_def with_world_def when_then_def and_then_def
      logging_error_def finish_failed_execution_def)

subsection \<open>Environment variables\<close>













subsection \<open>The image and the name\<close>

text \<open>
  Claim C8. \<open>set_image_id\<close> derives a name only when the name is the empty string. A new
  descriptor has the name \<open>None\<close>, which is not the empty string, and the attribute is
  always there: on a descriptor to which no name was given, \<open>set_image_id\<close> sets the image
  and nothing else, the client is not asked for a name, and the name stays \<open>None\<close>. More
  generally, the name is left as it was whenever it is not the empty string.
\<close>

theorem set_image_id_keeps_absent_name:
  "set_image_id client img (fresh_world tmp fs ts) =
     (Ok (), (fresh_world tmp fs ts)\<lparr>self := (self (fresh_world tmp fs ts))\<lparr>image_id := img\<rparr>\<rparr>) \<and>
   name (self (snd (set_image_id client img (fresh_world tmp fs ts)))) = PNone \<and>
   (name (self w) \<noteq> PStr '''' \<longrightarrow>
      set_image_id client img w = (Ok (), w\<lparr>self := (self w)\<lparr>image_id := img\<rparr>\<rparr>))"
  by (simp add: set_image_id_def and_then_def update_self_def with_world_def when_then_def
      ret_def hasattr_name_def fresh_world_def AWSLambda_init_def)

theorem set_image_id_keeps_absent_name_witness:
  "name (self (snd (set_image_id example_client (PStr ''grycap/cowsay'')
     (fresh_world ''/tmp'' Map.empty Map.empty)))) = PNone \<and>
   create_function_name example_client (PStr ''grycap/cowsay'') = Ok (PStr ''scar-image'') \<and>
   fst (set_image_id example_client (PStr ''grycap/cowsay'')
     (fresh_world ''/tmp'' Map.empty Map.empty)) = Ok ()"
  using set_image_id_keeps_absent_name [of example_client "PStr ''grycap/cowsay''" "''/tmp''"
      Map.empty Map.empty "fresh_world ''/tmp'' Map.empty Map.empty"]
  by (simp add: example_client_def fresh_world_def AWSLambda_init_def)

subsection \<open>Errors while binding\<close>

lemma try_log_Raise: "body w = (Raise ex, w') \<Longrightarrow> try_log body w = logging_error_exn ex w'"
  by (simp add: try_log_def)

lemma try_log_Exit: "body w = (Exit st, w') \<Longrightarrow> try_log body w = (Exit st, w')"
  by (simp add: try_log_def)

lemma try_log_Ok: "body w = (Ok x, w') \<Longrightarrow> try_log body w = (Ok x, w')"
  by (simp add: try_log_def)

lemma try_log_no_Raise: "fst (try_log body w) \<noteq> Raise ex"
proof (cases "body w")
  case (Pair r w')
  then show ?thesis
    by (cases r) (simp_all add: try_log_def logging_error_exn_def)
qed

lemma bind_attribute_no_Raise: "fst (bind_attribute client nested args attr w) \<noteq> Raise ex"
  by (simp add: bind_attribute_def Let_def try_log_no_Raise)

lemma bind_loop_no_Raise: "fst (bind_loop client nested args attrs w) \<noteq> Raise ex"
proof (induction attrs arbitrary: w)
  case Nil
  show ?case by (simp add: ret_def)
next
  case (Cons attr attrs)
  obtain r w1 where step: "bind_attribute client nested args attr w = (r, w1)"
    by (cases "bind_attribute client nested args attr w")
  with bind_attribute_no_Raise [of client nested args attr w ex] have r: "r \<noteq> Raise ex"
    by simp
  show ?case
  proof (cases r)
    case (Ok u)
    with step have "bind_loop client nested args (attr # attrs) w =
        bind_loop client nested args attrs w1"
      by (simp add: and_then_def)
    with Cons.IH show ?thesis by simp
  next
    case (Raise e)
    with step r show ?thesis by (simp add: and_then_def)
  next
    case (Exit st)
    with step show ?thesis by (simp add: and_then_def)
  qed
qed

lemma bind_loop_step:
  "fst (bind_attribute client nested args attr w) = Ok () \<Longrightarrow>
   bind_loop client nested args (attr # rest) w =
     bind_loop client nested args rest (snd (bind_attribute client nested args attr w))"
  by (cases "bind_attribute client nested args attr w") (simp add: and_then_def)

lemma bind_loop_exit:
  "fst (bind_attribute client nested args attr w) = Exit st \<Longrightarrow>
   bind_loop client nested args (attr # rest) w =
     (Exit st, snd (bind_attribute client nested args attr w))"
  by (cases "bind_attribute client nested args attr w") (simp add: and_then_def)

lemma bind_missing_setter:
  assumes "get_argument_value args attr \<noteq> PNone"
    and "map_of (setters client nested) (''set_'' @ attr) = None"
  shows "bind_attribute client nested args attr w =
    (Ok (), w\<lparr>log_records := log_records w @ [Log_error_exn AttributeError]\<rparr>)"
  using assms
  by (simp add: bind_attribute_def Let_def call_setter_def try_log_def raise_def
      logging_error_exn_def)

lemma bind_raising_setter:
  assumes "get_argument_value args attr \<noteq> PNone"
    and "call_setter client nested (''set_'' @ attr) (get_argument_value args attr) w =
      (Raise ex, w')"
  shows "bind_attribute client nested args attr w =
    (Ok (), w'\<lparr>log_records := log_records w' @ [Log_error_exn ex]\<rparr>)"
  using assms by (simp add: bind_attribute_def Let_def try_log_Raise logging_error_exn_def)

lemma bind_exiting_setter:
  assumes "get_argument_value args attr \<noteq> PNone"
    and "call_setter client nested (''set_'' @ attr) (get_argument_value args attr) w =
      (Exit st, w')"
  shows "bind_attribute client nested args attr w = (Exit st, w')"
  using assms by (simp add: bind_attribute_def Let_def try_log_Exit)

lemma call_set_name: "call_setter client nested ''set_name'' v = set_name v"
  by (simp add: call_setter_def setters_def)

lemma call_set_attributes: "call_setter client nested ''set_attributes'' v = nested v"
  by (simp add: call_setter_def setters_def)

lemma set_name_rejected:
  assumes "is_valid_name v = Ok r" and "\<not> truthy r"
  shows "set_name v w =
    (Exit Failure, w\<lparr>printed := printed w @ [invalid_name_message v],
       log_records := log_records w @ [Log_error (invalid_name_message v)]\<rparr>)"
  using assms
  by (simp add: set_name_def lift_def and_then_def print_def logging_error_def
      finish_failed_execution_def)

lemma set_name_accepted:
  assumes "is_valid_name v = Ok r" and "truthy r"
  shows "set_name v w = (Ok (), w\<lparr>self := (self w)\<lparr>name := v\<rparr>\<rparr>)"
  using assms by (simp add: set_name_def lift_def and_then_def ret_def update_self_def)

lemma set_name_raising:
  assumes "is_valid_name v = Raise e"
  shows "set_name v w = (Raise e, w)"
  using assms by (simp add: set_name_def lift_def and_then_def)

lemma bind_name:
  assumes "get_argument_value args ''name'' \<noteq> PNone"
  shows "bind_attribute client nested args ''name'' w =
    try_log (set_name (get_argument_value args ''name'')) w"
  using assms call_set_name [of client nested "get_argument_value args ''name''"]
  by (simp add: bind_attribute_def Let_def)

lemma invalid_name_example: "is_valid_name (PStr ''bad name'') = Ok (PBool False)"
  by code_simp

text \<open>
  A name that is not valid ends the run from inside the loop: \<open>set_name\<close> calls
  \<open>finish_failed_execution\<close>, which the handler of the loop does not catch. The memory
  that comes after the name in the arguments is never bound.
\<close>

theorem invalid_name_aborts_binding:
  "fst (set_attributes example_host example_client
     [(''name'', PStr ''bad name''), (''memory'', PInt 128)]
     (fresh_world ''/tmp'' Map.empty Map.empty)) = Exit Failure \<and>
   memory (self (snd (set_attributes example_host example_client
     [(''name'', PStr ''bad name''), (''memory'', PInt 128)]
     (fresh_world ''/tmp'' Map.empty Map.empty)))) = PInt 512 \<and>
   log_records (snd (set_attributes example_host example_client
     [(''name'', PStr ''bad name''), (''memory'', PInt 128)]
     (fresh_world ''/tmp'' Map.empty Map.empty))) =
     [Log_error (invalid_name_message (PStr ''bad name''))]"
  by (simp add: set_attributes_def attributes_pass_def bind_attribute_def Let_def
      get_argument_value_def call_setter_def setters_def try_log_def set_name_def
      invalid_name_example lift_def and_then_def print_def logging_error_def
      finish_failed_execution_def fresh_world_def AWSLambda_init_def)

text \<open>
  Claim C9, as the code has it. For an argument that has a value: when the descriptor has
  no setter of that name, or the setter raises an exception, the exception is logged and
  the attribute is done without an error, so that the loop goes on with the next
  attribute; no exception leaves the loop. A setter that ends the run is not caught: the
  loop, and the run, end there with its exit status. This is what a name does that the
  validator rejects: it is printed and logged, and the run ends with failure; a name on
  which the validator raises is logged and passed over like any other exception.
\<close>

theorem binding_errors_are_logged:
  "(get_argument_value args attr \<noteq> PNone \<and>
    map_of (setters client (set_attributes_of_value h client)) (''set_'' @ attr) = None \<longrightarrow>
      bind_attribute client (set_attributes_of_value h client) args attr w =
        (Ok (), w\<lparr>log_records := log_records w @ [Log_error_exn AttributeError]\<rparr>)) \<and>
   (get_argument_value args attr \<noteq> PNone \<and>
    call_setter client (set_attributes_of_value h client) (''set_'' @ attr)
      (get_argument_value args attr) w = (Raise ex, w') \<longrightarrow>
      bind_attribute client (set_attributes_of_value h client) args attr w =
        (Ok (), w'\<lparr>log_records := log_records w' @ [Log_error_exn ex]\<rparr>)) \<and>
   (get_argument_value args attr \<noteq> PNone \<and>
    call_setter client (set_attributes_of_value h client) (''set_'' @ attr)
      (get_argument_value args attr) w = (Exit st, w') \<longrightarrow>
      bind_attribute client (set_attributes_of_value h client) args attr w = (Exit st, w')) \<and>
   (fst (bind_attribute client (set_attributes_of_value h client) args attr w) = Ok () \<longrightarrow>
      bind_loop client (set_attributes_of_value h client) args (attr # rest) w =
        bind_loop client (set_attributes_of_value h client) args rest
          (snd (bind_attribute client (set_attributes_of_value h client) args attr w))) \<and>
   (fst (bind_attribute client (set_attributes_of_value h client) args attr w) = Exit st \<longrightarrow>
      bind_loop client (set_attributes_of_value h client) args (attr # rest) w =
        (Exit st, snd (bind_attribute client (set_attributes_of_value h client) args attr w))) \<and>
   fst (bind_attribute client (set_attributes_of_value h client) args attr w) \<noteq> Raise ex \<and>
   fst (bind_loop client (set_attributes_of_value h client) args attrs w) \<noteq> Raise ex \<and>
   (get_argument_value args ''name'' \<noteq> PNone \<and>
    is_valid_name (get_argument_value args ''name'') = Ok r \<and> \<not> truthy r \<longrightarrow>
      bind_attribute client (set_attributes_of_value h client) args ''name'' w =
        (Exit Failure,
         w\<lparr>printed := printed w @ [invalid_name_message (get_argument_value args ''name'')],
           log_records := log_records w @
             [Log_error (invalid_name_message (get_argument_value args ''name''))]\<rparr>)) \<and>
   (get_argument_value args ''name'' \<noteq> PNone \<and>
    is_valid_name (get_argument_value args ''name'') = Raise ex \<longrightarrow>
      bind_attribute client (set_attributes_of_value h client) args ''name'' w =
        (Ok (), w\<lparr>log_records := log_records w @ [Log_error_exn ex]\<rparr>)) \<and>
   (get_argument_value args ''name'' \<noteq> PNone \<and>
    is_valid_name (get_argument_value args ''name'') = Ok r \<and> truthy r \<longrightarrow>
      bind_attribute client (set_attributes_of_value h client) args ''name'' w =
        (Ok (), w\<lparr>self := (self w)\<lparr>name := get_argument_value args ''name''\<rparr>\<rparr>))"
proof -
  let ?N = "set_attributes_of_value h client"
  let ?v = "get_argument_value args ''name''"
  have rejected: "bind_attribute client ?N args ''name'' w =
      (Exit Failure, w\<lparr>printed := printed w @ [invalid_name_message ?v],
         log_records := log_records w @ [Log_error (invalid_name_message ?v)]\<rparr>)"
    if "?v \<noteq> PNone" "is_valid_name ?v = Ok r" "\<not> truthy r"
    using that by (simp add: bind_name try_log_Exit [OF set_name_rejected])
  have raising: "bind_attribute client ?N args ''name'' w =
      (Ok (), w\<lparr>log_records := log_records w @ [Log_error_exn ex]\<rparr>)"
    if "?v \<noteq> PNone" "is_valid_name ?v = Raise ex"
    using that
    by (simp add: bind_name try_log_Raise [OF set_name_raising] logging_error_exn_def)
  have accepted: "bind_attribute client ?N args ''name'' w =
      (Ok (), w\<lparr>self := (self w)\<lparr>name := ?v\<rparr>\<rparr>)"
    if "?v \<noteq> PNone" "is_valid_name ?v = Ok r" "truthy r"
    using that by (simp add: bind_name try_log_Ok [OF set_name_accepted])
  show ?thesis
    by (intro conjI impI; (elim conjE)?)
      (rule bind_missing_setter bind_raising_setter bind_exiting_setter bind_loop_step
        bind_loop_exit bind_attribute_no_Raise bind_loop_no_Raise rejected raising accepted;
       assumption)+
qed

theorem binding_errors_are_logged_witness:
  "bind_attribute example_client (set_attributes_of_value example_host example_client)
     [(''nosuch'', PInt 1), (''name'', PInt 5), (''memory'', PInt 128)] ''nosuch''
     (fresh_world ''/tmp'' Map.empty Map.empty) =
     (Ok (), (fresh_world ''/tmp'' Map.empty Map.empty)
        \<lparr>log_records := [Log_error_exn AttributeError]\<rparr>) \<and>
   bind_loop example_client (set_attributes_of_value example_host example_client)
     [(''nosuch'', PInt 1), (''name'', PInt 5), (''memory'', PInt 128)]
     [''nosuch'', ''name'', ''memory''] (fresh_world ''/tmp'' Map.empty Map.empty) =
     (Ok (), (fresh_world ''/tmp'' Map.empty Map.empty)
        \<lparr>self := (self (fresh_world ''/tmp'' Map.empty Map.empty))\<lparr>memory := PInt 128\<rparr>,
         log_records := [Log_error_exn AttributeError, Log_error_exn TypeError]\<rparr>)"
  using binding_errors_are_logged [of "[(''nosuch'', PInt 1), (''name'', PInt 5),
      (''memory'', PInt 128)]" "''nosuch''" example_client example_host
      "fresh_world ''/tmp'' Map.empty Map.empty"
      AttributeError "fresh_world ''/tmp'' Map.empty Map.empty" Failure
      "[''name'', ''memory'']" "[]" "PBool False"]
  by (simp add: get_argument_value_def setters_def bind_attribute_def Let_def call_setter_def
      try_log_def set_name_def is_valid_name_def raise_def logging_error_exn_def
      set_memory_def example_client_def lift_def and_then_def update_self_def ret_def
      fresh_world_def)

end
